theory Spec2Isabelle
  imports Complex_Main "HOL-Library.Char_ord" "HOL-Library.List_Lexorder"
begin

section \<open>OMPL planning context manager (planning\_context\_manager.cpp)\<close>

subsection \<open>Faults, log output, configuration values\<close>

text \<open>
  Everything that leaves a function other than by returning is a value of \<open>fault\<close>:
  the exception \<open>boost::bad_lexical_cast\<close> thrown by \<open>boost::lexical_cast<bool>\<close>,
  an exception thrown by the context's \<open>configure\<close> that is not an \<open>ompl::Exception\<close>,
  and the dereference of a null \<open>shared_ptr\<close>.
\<close>

datatype fault = BadLexicalCast | ForeignException | NullDereference

datatype severity = DEBUG | INFO | WARN | ERROR

text \<open>One constructor per message the file writes to its logger, with the message's arguments.\<close>

datatype log_msg =
    StoringPlannerData nat nat
  | ReusingPlannerData nat nat
  | LoadingPlannerData nat nat
  | PersistentNotSupported string
  | UnknownPlanner string
  | ReusingCachedContext
  | UsingConstrainedStateSpace
  | CreatingNewContext
  | UsingParameterization string
  | FactoryNotFound string
  | NoKnownStateSpaces
  | NoGroupSpecified
  | NoPlanningScene
  | NoConfigForPlanner string string
  | NoConfigForGroup string
  | NewContextSet string
  | OmplError

type_synonym log_entry = "severity \<times> log_msg"

text \<open>A planner configuration is a \<open>std::map<std::string, std::string>\<close>.\<close>

type_synonym config_map = "string \<rightharpoonup> string"

text \<open>
  \<open>boost::lexical_cast<bool>\<close> on a string: the last character decides the value and must be
  \<open>0\<close> or \<open>1\<close>; what precedes it may be one sign (\<open>+\<close>, or \<open>-\<close> before a final \<open>0\<close>)
  followed by zeros only. Any other string throws \<open>bad_lexical_cast\<close> (\<open>None\<close> here).
\<close>

definition lexical_cast_bool :: "string \<Rightarrow> bool option" where
  "lexical_cast_bool s =
     (if s = [] then None
      else let output = (last s = CHR ''1'') in
        if \<not> output \<and> last s \<noteq> CHR ''0'' then None
        else let front = butlast s;
                 digits = (if front \<noteq> [] \<and> (hd front = CHR ''+'' \<or> (hd front = CHR ''-'' \<and> \<not> output))
                           then tl front else front)
             in if list_all (\<lambda>c. c = CHR ''0'') digits then Some output else None)"

subsection \<open>Requests and state-space factories\<close>

text \<open>
  Of a \<open>MotionPlanRequest\<close> the file reads the group name, the planner id and the sizes of the
  position and orientation constraint lists of the path constraints; the constraints
  themselves are handed on unread, so a constraint is an opaque item.
\<close>

record constraints =
  position_constraints :: "nat list"
  orientation_constraints :: "nat list"

record request =
  group_name :: string
  planner_id :: string
  path_constraints :: constraints
  goal_constraints :: "constraints list"

text \<open>
  A \<open>ModelBasedStateSpaceFactory\<close> as the file uses it: \<open>getType()\<close> and the virtual
  \<open>canRepresentProblem(group, req, robot_model)\<close> (the robot model is the manager's own,
  fixed member).
\<close>

record factory =
  getType :: string
  canRepresentProblem :: "string \<Rightarrow> request \<Rightarrow> int"

text \<open>
  Modelled from the spec: the type names of the constrained representation and of the
  joint-space representation, \<open>ConstrainedPlanningStateSpace::PARAMETERIZATION_TYPE\<close> and
  \<open>JointModelStateSpace::PARAMETERIZATION_TYPE\<close>, which the state spaces define in files of
  their own. The two strings stand for these names; the theorems use only that they are not
  empty and differ.
\<close>

definition CONSTRAINED_PARAMETERIZATION_TYPE :: string where
  "CONSTRAINED_PARAMETERIZATION_TYPE = ''ConstrainedPlanningJointModel''"

definition JOINT_PARAMETERIZATION_TYPE :: string where
  "JOINT_PARAMETERIZATION_TYPE = ''JointModel''"

text \<open>
  \<open>state_space_factories_\<close> is a container keyed by type name that the file walks from
  \<open>begin()\<close> to \<open>end()\<close> and searches with \<open>find\<close>. It is modelled by the sequence of its
  entries in the order the walk visits them.
\<close>

type_synonym factories = "(string \<times> factory) list"

text \<open>
  Modelled from the spec: \<open>register(factory)\<close>. The header that declares
  \<open>state_space_factories_\<close> and defines \<open>registerStateSpaceFactory\<close> is not part of this
  file. The file finds entries by type name (\<open>find\<close>) and reads \<open>->first\<close> and
  \<open>->second\<close> of the entries it walks, which is the interface of a \<open>std::map\<close> from type
  names to factories: registration is the assignment
  \<open>state_space_factories_[factory->getType()] = factory\<close>, and the walk visits the entries
  in ascending order of their keys, strings compared byte by byte.
\<close>

fun map_assign :: "factories \<Rightarrow> string \<Rightarrow> factory \<Rightarrow> factories" where
  "map_assign [] k v = [(k, v)]"
| "map_assign (e # es) k v =
     (if k < fst e then (k, v) # e # es
      else if k = fst e then (k, v) # es
      else e # map_assign es k v)"

definition registerStateSpaceFactory :: "factory \<Rightarrow> factories \<Rightarrow> factories" where
  "registerStateSpaceFactory fac fs = map_assign fs (getType fac) fac"

text \<open>The registry after the factories of a list have been registered, the first one first.\<close>

definition registered :: "factory list \<Rightarrow> factories" where
  "registered facs = foldl (\<lambda>fs fac. registerStateSpaceFactory fac fs) [] facs"

text \<open>\<open>getStateSpaceFactory(const std::string& factory_type)\<close>; \<open>None\<close> is the \<open>EMPTY\<close> pointer.\<close>

definition getStateSpaceFactory_type :: "factories \<Rightarrow> string \<Rightarrow> factory option \<times> log_entry list" where
  "getStateSpaceFactory_type fs factory_type =
     (let f = (if factory_type = [] then (case fs of [] \<Rightarrow> None | e # _ \<Rightarrow> Some (snd e))
               else map_of fs factory_type)
      in case f of
           Some fac \<Rightarrow> (Some fac, [(DEBUG, UsingParameterization factory_type)])
         | None \<Rightarrow> (None, [(ERROR, FactoryNotFound factory_type)]))"

text \<open>
  The loop of \<open>getStateSpaceFactory(group, req)\<close>: \<open>best\<close> is the iterator (\<open>None\<close> is
  \<open>end()\<close>), \<open>prev_priority\<close> the best score so far.
\<close>

fun best_factory :: "factories \<Rightarrow> string \<Rightarrow> request \<Rightarrow> (string \<times> factory) option \<Rightarrow> int
    \<Rightarrow> (string \<times> factory) option" where
  "best_factory [] grp req best prev_priority = best"
| "best_factory (it # rest) grp req best prev_priority =
     (let priority = canRepresentProblem (snd it) grp req
      in if priority > prev_priority then best_factory rest grp req (Some it) priority
         else best_factory rest grp req best prev_priority)"

definition getStateSpaceFactory_problem :: "factories \<Rightarrow> string \<Rightarrow> request
    \<Rightarrow> factory option \<times> log_entry list" where
  "getStateSpaceFactory_problem fs grp req =
     (case best_factory fs grp req None 0 of
        None \<Rightarrow> (None, [(ERROR, NoKnownStateSpaces)])
      | Some best \<Rightarrow> (Some (snd best), [(DEBUG, UsingParameterization (fst best))]))"

subsection \<open>The multi-query planner allocator\<close>

text \<open>The algorithm types \<open>T\<close> that \<open>registerDefaultPlanners\<close> instantiates the allocator with.\<close>

datatype planner_type =
    AnytimePathShortening | BFMT | BiEST | BiTRRT | BKPIECE1 | EST | FMT | KPIECE1
  | LazyPRM | LazyPRMstar | LazyRRT | LBKPIECE1 | LBTRRT | PDST | PRM | PRMstar
  | ProjEST | RRT | RRTConnect | RRTstar | SBL | SPARS | SPARStwo | STRIDE | TRRT | PRMcustom

text \<open>Of an \<open>ob::PlannerData\<close> the file reads the vertex and edge counts.\<close>

record planner_data =
  numVertices :: nat
  numEdges :: nat

text \<open>
  A planner object as this file can tell planners apart: its algorithm, the data it was
  constructed from (\<open>None\<close> for \<open>T(si)\<close>), the data \<open>getPlannerData\<close> reports, and the
  arguments of the last \<open>setName\<close> and \<open>params().setParams\<close> calls (\<open>None\<close>: never called, the
  planner has the name and the parameter values its constructor gave it).
\<close>

record planner =
  algorithm :: planner_type
  seed :: "planner_data option"
  graph :: planner_data
  name_set :: "string option"
  params_set :: "config_map option"

text \<open>
  \<open>ModelBasedPlanningContextSpecification\<close>: the configuration, the type of the state space the
  factory built, and the path constraints the constrained state space was derived from, if
  any. The planner selector and the constraint sampler manager are the manager's own.
\<close>

record context_specification =
  spec_config :: config_map
  spec_state_space :: string
  spec_constrained_state_space :: "constraints option"

record allocator =
  planners :: "string \<rightharpoonup> planner option"
  planner_data_storage_paths :: "string \<rightharpoonup> string"

definition fresh_planner :: "planner_type \<Rightarrow> planner" where
  "fresh_planner T = \<lparr>algorithm = T, seed = None, graph = \<lparr>numVertices = 0, numEdges = 0\<rparr>,
                      name_set = None, params_set = None\<rparr>"

definition persistent_planner :: "planner_type \<Rightarrow> planner_data \<Rightarrow> planner" where
  "persistent_planner T data = \<lparr>algorithm = T, seed = Some data, graph = data,
                                name_set = None, params_set = None\<rparr>"

text \<open>\<open>allocatePersistentPlanner<T>\<close>: the five specialisations, then the default (a null pointer).\<close>

fun allocatePersistentPlanner :: "planner_type \<Rightarrow> planner_data \<Rightarrow> planner option" where
  "allocatePersistentPlanner PRM data = Some (persistent_planner PRM data)"
| "allocatePersistentPlanner PRMcustom data = Some (persistent_planner PRMcustom data)"
| "allocatePersistentPlanner PRMstar data = Some (persistent_planner PRMstar data)"
| "allocatePersistentPlanner LazyPRM data = Some (persistent_planner LazyPRM data)"
| "allocatePersistentPlanner LazyPRMstar data = Some (persistent_planner LazyPRMstar data)"
| "allocatePersistentPlanner _ data = None"

text \<open>
  \<open>allocatePlannerImpl<T>\<close>. \<open>load\<close> is \<open>storage_.load\<close>: the data read from a path. The
  function sets parameters from \<open>spec.config_\<close>.
\<close>

definition allocatePlannerImpl :: "(string \<Rightarrow> planner_data) \<Rightarrow> planner_type \<Rightarrow> string
    \<Rightarrow> context_specification \<Rightarrow> bool \<Rightarrow> bool \<Rightarrow> string \<Rightarrow> allocator
    \<Rightarrow> planner \<times> allocator \<times> log_entry list" where
  "allocatePlannerImpl load T new_name spec load_planner_data store_planner_data file_path al =
     (let (planner0, lg) =
            (if load_planner_data then
               let data = load file_path;
                   p = allocatePersistentPlanner T data
               in (p, (INFO, LoadingPlannerData (numEdges data) (numVertices data)) #
                      (case p of None \<Rightarrow> [(ERROR, PersistentNotSupported new_name)] | Some _ \<Rightarrow> []))
             else (None, []));
          planner1 = (case planner0 of None \<Rightarrow> fresh_planner T | Some p \<Rightarrow> p);
          planner2 = (if new_name \<noteq> [] then planner1\<lparr>name_set := Some new_name\<rparr> else planner1);
          planner3 = planner2\<lparr>params_set := Some (spec_config spec)\<rparr>;
          al' = (if store_planner_data
                 then al\<lparr>planner_data_storage_paths := (planner_data_storage_paths al)(new_name \<mapsto> file_path)\<rparr>
                 else al)
      in (planner3, al', lg))"

text \<open>
  The idiom \<open>it = cfg.find(k); b = false; if (it != cfg.end()) { b = lexical_cast<bool>(it->second);
  cfg.erase(it); }\<close> on the local copy \<open>cfg\<close>.
\<close>

definition take_bool :: "config_map \<Rightarrow> string \<Rightarrow> fault + (bool \<times> config_map)" where
  "take_bool cfg k =
     (case cfg k of
        None \<Rightarrow> Inr (False, cfg)
      | Some v \<Rightarrow> (case lexical_cast_bool v of
                    None \<Rightarrow> Inl BadLexicalCast
                  | Some b \<Rightarrow> Inr (b, cfg(k := None))))"

text \<open>
  \<open>allocatePlanner<T>\<close>. The result is the returned \<open>PlannerPtr\<close> (\<open>None\<close> is a null pointer).
  \<open>cfg\<close> is the local copy of \<open>spec.config_\<close> that the keys are erased from; the calls of
  \<open>allocatePlannerImpl\<close> are given \<open>spec\<close>.
\<close>

definition allocatePlanner :: "(string \<Rightarrow> planner_data) \<Rightarrow> planner_type \<Rightarrow> string
    \<Rightarrow> context_specification \<Rightarrow> allocator \<Rightarrow> fault + (planner option \<times> allocator \<times> log_entry list)" where
  "allocatePlanner load T new_name spec al =
     (case take_bool (spec_config spec) ''multi_query_planning_enabled'' of
        Inl e \<Rightarrow> Inl e
      | Inr (multi_query_planning_enabled, cfg) \<Rightarrow>
          if multi_query_planning_enabled then
            (case planners al new_name of
               Some live \<Rightarrow>
                 (case live of
                    None \<Rightarrow> Inl NullDereference
                  | Some p \<Rightarrow>
                      let data = graph p;
                          replacement = allocatePersistentPlanner T data
                      in Inr (replacement,
                              al\<lparr>planners := (planners al)(new_name \<mapsto> replacement)\<rparr>,
                              [(INFO, ReusingPlannerData (numEdges data) (numVertices data))]))
             | None \<Rightarrow>
                 (case take_bool cfg ''load_planner_data'' of
                    Inl e \<Rightarrow> Inl e
                  | Inr (load_planner_data, cfg1) \<Rightarrow>
                      (case take_bool cfg1 ''store_planner_data'' of
                         Inl e \<Rightarrow> Inl e
                       | Inr (store_planner_data, cfg2) \<Rightarrow>
                           let planner_data_path = (case cfg2 ''planner_data_path'' of None \<Rightarrow> [] | Some v \<Rightarrow> v);
                               cfg3 = cfg2(''planner_data_path'' := None);
                               (p, al', lg) = allocatePlannerImpl load T new_name spec
                                                load_planner_data store_planner_data planner_data_path al
                           in Inr (Some p, al'\<lparr>planners := (planners al')(new_name \<mapsto> Some p)\<rparr>, lg))))
          else
            (let (p, al', lg) = allocatePlannerImpl load T new_name spec False False [] al
             in Inr (Some p, al', lg)))"

subsection \<open>The manager, its contexts and the context cache\<close>

record PlannerConfigurationSettings =
  pcs_name :: string
  pcs_group :: string
  pcs_config :: config_map

text \<open>
  The members of \<open>PlanningContextManager\<close> the file reads (the source's names end in an
  underscore). Lengths and counts are \<open>unsigned int\<close> values that are only stored and
  copied; \<open>max_solution_segment_length_\<close> is a \<open>double\<close> that is only stored and compared.
\<close>

record manager =
  planner_configs :: "string \<rightharpoonup> PlannerConfigurationSettings"
  state_space_factories :: factories
  max_goal_samples :: nat
  max_state_sampling_attempts :: nat
  max_goal_sampling_attempts :: nat
  max_planning_threads :: nat
  max_solution_segment_length :: real
  minimum_waypoint_count :: nat

text \<open>
  Modelled from the spec: a planning context carries the numeric limits that the manager
  assigns. The setters of \<open>ModelBasedPlanningContext\<close> are declared in its header; each
  stores its argument in the limit it is named after, and \<open>setSpecificationConfig\<close> stores
  the configuration in the context's specification.
\<close>

record limits =
  ctx_max_planning_threads :: nat
  ctx_max_goal_samples :: nat
  ctx_max_state_sampling_attempts :: nat
  ctx_max_goal_sampling_attempts :: nat
  ctx_max_solution_segment_length :: real
  ctx_minimum_waypoint_count :: nat

record planning_context =
  ctx_name :: string
  ctx_spec :: context_specification
  ctx_limits :: limits

datatype error_code = SUCCESS | FAILURE | INVALID_GROUP_NAME | OtherErrorCode int

datatype configure_outcome = Returns | ThrowsOmplException | ThrowsOtherException

text \<open>
  What the file calls and does not define. \<open>constructed_limits\<close> are the limits the
  constructor of \<open>ModelBasedPlanningContext\<close> leaves in a new context.
  \<open>setPathConstraints\<close> and \<open>setGoalConstraints\<close> are given the context, the request and a
  pointer to the error code: they return their result and the error code as they leave it.
  \<open>configure\<close> returns or throws. Calls that change only the planning state inside the
  context (\<open>clear\<close>, \<open>setPlanningScene\<close>, \<open>setMotionPlanRequest\<close>,
  \<open>setCompleteInitialState\<close>, \<open>setPlanningVolume\<close>) leave the fields of \<open>planning_context\<close> as they are.
\<close>

record externals =
  constructed_limits :: limits
  setPathConstraints :: "nat \<Rightarrow> request \<Rightarrow> error_code \<Rightarrow> bool \<times> error_code"
  setGoalConstraints :: "nat \<Rightarrow> request \<Rightarrow> error_code \<Rightarrow> bool \<times> error_code"
  configure :: "nat \<Rightarrow> request \<Rightarrow> configure_outcome"

text \<open>
  The heap of context objects and \<open>CachedContexts::contexts_\<close>. A
  \<open>ModelBasedPlanningContextPtr\<close> is an address; \<open>use_count\<close> is the number of
  \<open>shared_ptr\<close>s to the object at an address, so \<open>unique()\<close> is \<open>use_count = 1\<close>. Addresses
  are handed out in increasing order and never reused; that an object is destroyed when its
  count reaches zero is not modelled.
\<close>

record store =
  contexts :: "string \<times> string \<rightharpoonup> nat list"
  objects :: "nat \<rightharpoonup> planning_context"
  use_count :: "nat \<Rightarrow> nat"
  next_address :: nat

definition empty_store :: store where
  "empty_store = \<lparr>contexts = Map.empty, objects = Map.empty, use_count = (\<lambda>_. 0), next_address = 0\<rparr>"

text \<open>A holder lets go of its pointer to the context at \<open>c\<close>.\<close>

definition release :: "nat \<Rightarrow> store \<Rightarrow> store" where
  "release c st = st\<lparr>use_count := (use_count st)(c := use_count st c - 1)\<rparr>"

definition DBL_EPSILON :: real where
  "DBL_EPSILON = 1 / 2 ^ 52"

text \<open>Lines 414 to 425: the setters called on the context before it is returned.\<close>

definition apply_manager_settings :: "manager \<Rightarrow> config_map \<Rightarrow> planning_context \<Rightarrow> planning_context" where
  "apply_manager_settings m cfg ctx =
     (let l1 = (ctx_limits ctx)\<lparr>ctx_max_planning_threads := max_planning_threads m,
                                ctx_max_goal_samples := max_goal_samples m,
                                ctx_max_state_sampling_attempts := max_state_sampling_attempts m,
                                ctx_max_goal_sampling_attempts := max_goal_sampling_attempts m\<rparr>;
          l2 = (if max_solution_segment_length m > DBL_EPSILON
                then l1\<lparr>ctx_max_solution_segment_length := max_solution_segment_length m\<rparr>
                else l1);
          l3 = l2\<lparr>ctx_minimum_waypoint_count := minimum_waypoint_count m\<rparr>
      in ctx\<lparr>ctx_limits := l3, ctx_spec := (ctx_spec ctx)\<lparr>spec_config := cfg\<rparr>\<rparr>)"

definition update_object :: "nat \<Rightarrow> (planning_context \<Rightarrow> planning_context) \<Rightarrow> store \<Rightarrow> store" where
  "update_object c f st =
     (case objects st c of
        None \<Rightarrow> st
      | Some ctx \<Rightarrow> st\<lparr>objects := (objects st)(c \<mapsto> f ctx)\<rparr>)"

text \<open>
  \<open>getPlanningContext(config, factory, req)\<close>. The result is the returned pointer, which
  counts as one holder of the context. The factory is dereferenced, so it is not null here.
\<close>

definition getPlanningContext_config :: "externals \<Rightarrow> manager \<Rightarrow> PlannerConfigurationSettings
    \<Rightarrow> factory \<Rightarrow> request \<Rightarrow> store \<Rightarrow> nat \<times> store \<times> log_entry list" where
  "getPlanningContext_config ext m config fac req st =
     (let key = (pcs_name config, getType fac);
          cached = (case contexts st key of
                      None \<Rightarrow> None
                    | Some cached_contexts \<Rightarrow> find (\<lambda>c. use_count st c = 1) cached_contexts)
      in case cached of
           Some c \<Rightarrow>
             (c, update_object c (apply_manager_settings m (pcs_config config))
                   (st\<lparr>use_count := (use_count st)(c := use_count st c + 1)\<rparr>),
              [(DEBUG, ReusingCachedContext)])
         | None \<Rightarrow>
             (let constrained = (getType fac = CONSTRAINED_PARAMETERIZATION_TYPE);
                  context_spec = \<lparr>spec_config = pcs_config config,
                                  spec_state_space = getType fac,
                                  spec_constrained_state_space =
                                    (if constrained then Some (path_constraints req) else None)\<rparr>;
                  c = next_address st;
                  st1 = st\<lparr>objects := (objects st)(c \<mapsto> \<lparr>ctx_name = pcs_name config,
                                                           ctx_spec = context_spec,
                                                           ctx_limits = constructed_limits ext\<rparr>),
                           use_count := (use_count st)(c := 1),
                           next_address := Suc c\<rparr>;
                  st2 = (if \<not> constrained
                         then st1\<lparr>contexts := (contexts st1)
                                    (key \<mapsto> (case contexts st1 key of None \<Rightarrow> [] | Some l \<Rightarrow> l) @ [c]),
                                  use_count := (use_count st1)(c := use_count st1 c + 1)\<rparr>
                         else st1)
              in (c, update_object c (apply_manager_settings m (pcs_config config)) st2,
                  (if constrained then [(DEBUG, UsingConstrainedStateSpace)] else []) @
                  [(DEBUG, CreatingNewContext)])))"

subsection \<open>The request entry point\<close>

text \<open>\<open>haystack.find(needle) != std::string::npos\<close>.\<close>

fun str_contains :: "string \<Rightarrow> string \<Rightarrow> bool" where
  "str_contains [] needle = (needle = [])"
| "str_contains (c # cs) needle = (take (length needle) (c # cs) = needle \<or> str_contains cs needle)"

text \<open>Lines 497 to 520: the planner configuration for the request, \<open>None\<close> if there is none.\<close>

definition resolve_config :: "manager \<Rightarrow> request \<Rightarrow> PlannerConfigurationSettings option \<times> log_entry list" where
  "resolve_config m req =
     (let (pc, lg) =
            (if planner_id req \<noteq> [] then
               (case planner_configs m
                       (if \<not> str_contains (planner_id req) (group_name req)
                        then group_name req @ ''['' @ planner_id req @ '']''
                        else planner_id req) of
                  None \<Rightarrow> (None, [(WARN, NoConfigForPlanner (group_name req) (planner_id req))])
                | Some p \<Rightarrow> (Some p, []))
             else (None, []))
      in case pc of
           Some p \<Rightarrow> (Some p, lg)
         | None \<Rightarrow> (case planner_configs m (group_name req) of
                      None \<Rightarrow> (None, lg @ [(ERROR, NoConfigForGroup (group_name req))])
                    | Some p \<Rightarrow> (Some p, lg)))"

text \<open>
  Lines 563 to 571, the \<open>else\<close> part of the selection: the joint-model factory if the
  configuration enforces it, the factory with the best score otherwise.
\<close>

definition select_factory_unconstrained :: "factories \<Rightarrow> PlannerConfigurationSettings \<Rightarrow> request
    \<Rightarrow> fault + (factory option \<times> log_entry list)" where
  "select_factory_unconstrained fs pc req =
     (case pcs_config pc ''enforce_joint_model_state_space'' of
        None \<Rightarrow> Inr (getStateSpaceFactory_problem fs (pcs_group pc) req)
      | Some v \<Rightarrow>
          (case lexical_cast_bool v of
             None \<Rightarrow> Inl BadLexicalCast
           | Some b \<Rightarrow>
               if b then Inr (getStateSpaceFactory_type fs JOINT_PARAMETERIZATION_TYPE)
               else Inr (getStateSpaceFactory_problem fs (pcs_group pc) req)))"

text \<open>
  Lines 551 to 571. The conjunction of line 556 is evaluated from the left: the value of
  \<open>enforce_constrained_state_space\<close> is converted whenever the key is present.
\<close>

definition select_factory :: "factories \<Rightarrow> PlannerConfigurationSettings \<Rightarrow> request
    \<Rightarrow> fault + (factory option \<times> log_entry list)" where
  "select_factory fs pc req =
     (case pcs_config pc ''enforce_constrained_state_space'' of
        None \<Rightarrow> select_factory_unconstrained fs pc req
      | Some v \<Rightarrow>
          (case lexical_cast_bool v of
             None \<Rightarrow> Inl BadLexicalCast
           | Some b \<Rightarrow>
               if b \<and> (length (position_constraints (path_constraints req)) = 1 \<or>
                        length (orientation_constraints (path_constraints req)) = 1)
               then Inr (getStateSpaceFactory_type fs CONSTRAINED_PARAMETERIZATION_TYPE)
               else select_factory_unconstrained fs pc req))"

definition context_name :: "store \<Rightarrow> nat \<Rightarrow> string" where
  "context_name st c = (case objects st c of None \<Rightarrow> [] | Some ctx \<Rightarrow> ctx_name ctx)"

text \<open>
  Lines 575 to 610, for the context at \<open>c\<close>. Where a null pointer is returned the local
  pointer \<open>context\<close> goes out of scope or is reset, so its hold on the context is released.
\<close>

definition setup_context :: "externals \<Rightarrow> nat \<Rightarrow> request \<Rightarrow> store \<Rightarrow> log_entry list
    \<Rightarrow> fault + (nat option \<times> error_code \<times> store \<times> log_entry list)" where
  "setup_context ext c req st lg =
     (case setPathConstraints ext c req FAILURE of
        (path_ok, e1) \<Rightarrow>
          if \<not> path_ok then Inr (None, e1, release c st, lg)
          else (case setGoalConstraints ext c req e1 of
                  (goal_ok, e2) \<Rightarrow>
                    if \<not> goal_ok then Inr (None, e2, release c st, lg)
                    else (case configure ext c req of
                            Returns \<Rightarrow>
                              Inr (Some c, SUCCESS, st, lg @ [(DEBUG, NewContextSet (context_name st c))])
                          | ThrowsOmplException \<Rightarrow>
                              Inr (None, e2, release c st, lg @ [(ERROR, OmplError)])
                          | ThrowsOtherException \<Rightarrow> Inl ForeignException)))"

text \<open>
  \<open>getPlanningContext(planning_scene, req, error_code, node, use_constraints_approximation)\<close>.
  The result is the returned pointer (\<open>None\<close> is null) and \<open>error_code.val\<close> at the return. The
  factory that the selection returns is dereferenced by the call of line 573 without a test.
\<close>

definition getPlanningContext :: "externals \<Rightarrow> manager \<Rightarrow> nat option \<Rightarrow> request \<Rightarrow> store
    \<Rightarrow> fault + (nat option \<times> error_code \<times> store \<times> log_entry list)" where
  "getPlanningContext ext m planning_scene req st =
     (if group_name req = [] then Inr (None, INVALID_GROUP_NAME, st, [(ERROR, NoGroupSpecified)])
      else case planning_scene of
             None \<Rightarrow> Inr (None, FAILURE, st, [(ERROR, NoPlanningScene)])
           | Some scene \<Rightarrow>
               (case resolve_config m req of
                  (None, lg0) \<Rightarrow> Inr (None, FAILURE, st, lg0)
                | (Some pc, lg0) \<Rightarrow>
                    (case select_factory (state_space_factories m) pc req of
                       Inl e \<Rightarrow> Inl e
                     | Inr (None, lg1) \<Rightarrow> Inl NullDereference
                     | Inr (Some fac, lg1) \<Rightarrow>
                         (case getPlanningContext_config ext m pc fac req st of
                            (c, st1, lg2) \<Rightarrow> setup_context ext c req st1 (lg0 @ lg1 @ lg2)))))"

subsection \<open>Sequences of calls\<close>

text \<open>
  What the manager's clients do to the store, one after the other: acquire a context, or
  let go of one.
\<close>

datatype operation =
    Acquire manager PlannerConfigurationSettings factory request
  | Release nat

fun run :: "externals \<Rightarrow> operation list \<Rightarrow> store \<Rightarrow> store" where
  "run ext [] st = st"
| "run ext (Acquire m config fac req # ops) st =
     run ext ops (fst (snd (getPlanningContext_config ext m config fac req st)))"
| "run ext (Release c # ops) st = run ext ops (release c st)"

subsection \<open>Vocabulary of the properties\<close>

text \<open>
  The stores that sequences of calls keep to: every cached address has been handed out, no
  cache entry is keyed by the constrained type, and the objects are the ones at the addresses
  handed out.
\<close>

definition wf_store :: "store \<Rightarrow> bool" where
  "wf_store st \<longleftrightarrow>
     (\<forall>key l. contexts st key = Some l \<longrightarrow>
        snd key \<noteq> CONSTRAINED_PARAMETERIZATION_TYPE \<and> (\<forall>c \<in> set l. c < next_address st)) \<and>
     dom (objects st) = {..<next_address st}"

text \<open>The contexts cached under a key; a key without an entry has none.\<close>

definition cached_list :: "store \<Rightarrow> string \<times> string \<Rightarrow> nat list" where
  "cached_list st key = (case contexts st key of None \<Rightarrow> [] | Some l \<Rightarrow> l)"

subsection \<open>Concrete inputs\<close>

text \<open>Inputs at which the theorems below are evaluated.\<close>

definition scoring_factory :: "string \<Rightarrow> int \<Rightarrow> factory" where
  "scoring_factory t n = \<lparr>getType = t, canRepresentProblem = (\<lambda>grp req. n)\<rparr>"


definition plain_request :: request where
  "plain_request = \<lparr>group_name = ''arm'', planner_id = [],
                     path_constraints = \<lparr>position_constraints = [], orientation_constraints = []\<rparr>,
                     goal_constraints = []\<rparr>"

definition default_factories :: factories where
  "default_factories =
     [(CONSTRAINED_PARAMETERIZATION_TYPE, scoring_factory CONSTRAINED_PARAMETERIZATION_TYPE (- 1)),
      (JOINT_PARAMETERIZATION_TYPE, scoring_factory JOINT_PARAMETERIZATION_TYPE 100),
      (''PoseModel'', scoring_factory ''PoseModel'' 150)]"

definition arm_config :: "(string \<times> string) list \<Rightarrow> PlannerConfigurationSettings" where
  "arm_config kvs = \<lparr>pcs_name = ''arm[RRTConnect]'', pcs_group = ''arm'', pcs_config = map_of kvs\<rparr>"

definition request_with :: "nat list \<Rightarrow> nat list \<Rightarrow> request" where
  "request_with pos ori = \<lparr>group_name = ''arm'', planner_id = ''RRTConnect'',
                            path_constraints = \<lparr>position_constraints = pos, orientation_constraints = ori\<rparr>,
                            goal_constraints = []\<rparr>"

definition no_stored_data :: "string \<Rightarrow> planner_data" where
  "no_stored_data path = \<lparr>numVertices = 0, numEdges = 0\<rparr>"

definition empty_allocator :: allocator where
  "empty_allocator = \<lparr>planners = Map.empty, planner_data_storage_paths = Map.empty\<rparr>"

definition spec_of :: "(string \<times> string) list \<Rightarrow> context_specification" where
  "spec_of kvs = \<lparr>spec_config = map_of kvs, spec_state_space = JOINT_PARAMETERIZATION_TYPE,
                  spec_constrained_state_space = None\<rparr>"

definition multi_query_spec :: context_specification where
  "multi_query_spec = spec_of [(''multi_query_planning_enabled'', ''1''), (''range'', ''0.05'')]"

definition plain_externals :: externals where
  "plain_externals = \<lparr>constructed_limits =
                          \<lparr>ctx_max_planning_threads = 0, ctx_max_goal_samples = 0,
                           ctx_max_state_sampling_attempts = 0, ctx_max_goal_sampling_attempts = 0,
                           ctx_max_solution_segment_length = 0, ctx_minimum_waypoint_count = 0\<rparr>,
                        setPathConstraints = (\<lambda>c req e. (True, e)),
                        setGoalConstraints = (\<lambda>c req e. (True, e)),
                        configure = (\<lambda>c req. Returns)\<rparr>"

text \<open>A manager as its constructor leaves it, but for the maximum solution segment length.\<close>

definition manager_with :: "real \<Rightarrow> (string \<times> PlannerConfigurationSettings) list \<Rightarrow> manager" where
  "manager_with segment_length configs =
     \<lparr>planner_configs = map_of configs, state_space_factories = default_factories,
      max_goal_samples = 10, max_state_sampling_attempts = 4, max_goal_sampling_attempts = 1000,
      max_planning_threads = 4, max_solution_segment_length = segment_length,
      minimum_waypoint_count = 2\<rparr>"

definition joint_factory :: factory where
  "joint_factory = scoring_factory JOINT_PARAMETERIZATION_TYPE 100"

definition constrained_factory :: factory where
  "constrained_factory = scoring_factory CONSTRAINED_PARAMETERIZATION_TYPE (- 1)"

text \<open>One joint-model context is built and cached, and its holder lets go of it.\<close>

definition warm_up :: "operation list" where
  "warm_up = [Acquire (manager_with 0 []) (arm_config []) joint_factory plain_request, Release 0]"

text \<open>The same with a manager whose maximum solution segment length is one half.\<close>

definition warm_up_half :: "operation list" where
  "warm_up_half = [Acquire (manager_with (1 / 2) []) (arm_config []) joint_factory plain_request, Release 0]"

text \<open>Collaborators whose \<open>setGoalConstraints\<close> fails and reports a code of its own.\<close>

definition rejecting_externals :: externals where
  "rejecting_externals = plain_externals\<lparr>setGoalConstraints := (\<lambda>c req e. (False, OtherErrorCode (- 14)))\<rparr>"


text \<open>A manager with one configuration, for the group \<open>arm\<close>.\<close>

definition arm_manager :: "(string \<times> string) list \<Rightarrow> manager" where
  "arm_manager kvs = manager_with 0 [(''arm'', arm_config kvs)]"



section \<open>Theorems\<close>

subsection \<open>Selection of a state-space factory by score\<close>

lemma best_factory_None:
  "best_factory fs grp req best prev = None \<longleftrightarrow>
     best = None \<and> (\<forall>e \<in> set fs. canRepresentProblem (snd e) grp req \<le> prev)"
  by (induction fs arbitrary: best prev) (auto simp: Let_def)

lemma best_factory_Some:
  "best_factory fs grp req best prev = Some b \<Longrightarrow>
     (best = Some b \<and> (\<forall>e \<in> set fs. canRepresentProblem (snd e) grp req \<le> prev)) \<or>
     (\<exists>pre post. fs = pre @ b # post \<and> prev < canRepresentProblem (snd b) grp req \<and>
        (\<forall>e \<in> set pre. canRepresentProblem (snd e) grp req < canRepresentProblem (snd b) grp req) \<and>
        (\<forall>e \<in> set post. canRepresentProblem (snd e) grp req \<le> canRepresentProblem (snd b) grp req))"
proof (induction fs arbitrary: best prev)
  case Nil
  then show ?case by simp
next
  case (Cons it rest)
  let ?sc = "\<lambda>e. canRepresentProblem (snd e) grp req"
  show ?case
  proof (cases "?sc it > prev")
    case True
    with Cons.prems have run: "best_factory rest grp req (Some it) (?sc it) = Some b"
      by (simp add: Let_def)
    from Cons.IH [OF run] show ?thesis
    proof
      assume h: "Some it = Some b \<and> (\<forall>e \<in> set rest. ?sc e \<le> ?sc it)"
      then have "it # rest = [] @ b # rest" by simp
      with h True show ?thesis by (metis empty_iff list.set(1) option.inject)
    next
      assume "\<exists>pre post. rest = pre @ b # post \<and> ?sc it < ?sc b \<and>
        (\<forall>e \<in> set pre. ?sc e < ?sc b) \<and> (\<forall>e \<in> set post. ?sc e \<le> ?sc b)"
      then obtain pre post where p: "rest = pre @ b # post" "?sc it < ?sc b"
        "\<forall>e \<in> set pre. ?sc e < ?sc b" "\<forall>e \<in> set post. ?sc e \<le> ?sc b" by blast
      then have "it # rest = (it # pre) @ b # post" "prev < ?sc b"
        "\<forall>e \<in> set (it # pre). ?sc e < ?sc b" using True by auto
      with p(4) show ?thesis by blast
    qed
  next
    case False
    with Cons.prems have run: "best_factory rest grp req best prev = Some b"
      by (simp add: Let_def)
    from Cons.IH [OF run] show ?thesis
    proof
      assume "best = Some b \<and> (\<forall>e \<in> set rest. ?sc e \<le> prev)"
      with False show ?thesis by auto
    next
      assume "\<exists>pre post. rest = pre @ b # post \<and> prev < ?sc b \<and>
        (\<forall>e \<in> set pre. ?sc e < ?sc b) \<and> (\<forall>e \<in> set post. ?sc e \<le> ?sc b)"
      then obtain pre post where p: "rest = pre @ b # post" "prev < ?sc b"
        "\<forall>e \<in> set pre. ?sc e < ?sc b" "\<forall>e \<in> set post. ?sc e \<le> ?sc b" by blast
      then have "it # rest = (it # pre) @ b # post"
        "\<forall>e \<in> set (it # pre). ?sc e < ?sc b" using False by auto
      with p(2,4) show ?thesis by blast
    qed
  qed
qed

text \<open>
  What \<open>getStateSpaceFactory(group, req)\<close> returns, in terms of the walk: nothing and an
  error when no score is positive; otherwise the entry with the greatest score that the walk
  visits first.
\<close>

lemma getStateSpaceFactory_problem_walk:
  "(case getStateSpaceFactory_problem fs grp req of
      (None, lg) \<Rightarrow> (\<forall>e \<in> set fs. canRepresentProblem (snd e) grp req \<le> 0) \<and>
                     lg = [(ERROR, NoKnownStateSpaces)]
    | (Some f, lg) \<Rightarrow> (\<exists>pre k post. fs = pre @ (k, f) # post \<and>
                     lg = [(DEBUG, UsingParameterization k)] \<and>
                     0 < canRepresentProblem f grp req \<and>
                     (\<forall>e \<in> set pre. canRepresentProblem (snd e) grp req < canRepresentProblem f grp req) \<and>
                     (\<forall>e \<in> set post. canRepresentProblem (snd e) grp req \<le> canRepresentProblem f grp req)))"
proof (cases "best_factory fs grp req None 0")
  case None
  then have "\<forall>e \<in> set fs. canRepresentProblem (snd e) grp req \<le> 0"
    by (simp add: best_factory_None)
  with None show ?thesis
    by (simp add: getStateSpaceFactory_problem_def)
next
  case (Some b)
  from best_factory_Some [OF Some] obtain pre post where
    "fs = pre @ (fst b, snd b) # post" "0 < canRepresentProblem (snd b) grp req"
    "\<forall>e \<in> set pre. canRepresentProblem (snd e) grp req < canRepresentProblem (snd b) grp req"
    "\<forall>e \<in> set post. canRepresentProblem (snd e) grp req \<le> canRepresentProblem (snd b) grp req"
    by auto
  then have "\<exists>pre k post. fs = pre @ (k, snd b) # post \<and>
      [(DEBUG, UsingParameterization (fst b))] = [(DEBUG, UsingParameterization k)] \<and>
      0 < canRepresentProblem (snd b) grp req \<and>
      (\<forall>e \<in> set pre. canRepresentProblem (snd e) grp req < canRepresentProblem (snd b) grp req) \<and>
      (\<forall>e \<in> set post. canRepresentProblem (snd e) grp req \<le> canRepresentProblem (snd b) grp req)"
    by blast
  then show ?thesis
    using Some by (simp add: getStateSpaceFactory_problem_def)
qed


lemma map_assign_keys: "fst ` set (map_assign fs k v) = insert k (fst ` set fs)"
  by (induction fs) auto


lemma registered_snoc:
  "registered (facs @ [fac]) = registerStateSpaceFactory fac (registered facs)"
  by (simp add: registered_def)


lemma registered_types:
  "fst ` set (registered facs) = getType ` set facs"
proof (induction facs rule: rev_induct)
  case Nil
  then show ?case by (simp add: registered_def)
next
  case (snoc fac facs)
  then show ?case
    by (simp add: registered_snoc registerStateSpaceFactory_def map_assign_keys)
qed




subsection \<open>The three tiers of the state-space selection\<close>

lemma lexical_cast_bool_1: "lexical_cast_bool ''1'' = Some True"
  by (simp add: lexical_cast_bool_def)

lemma lexical_cast_bool_0: "lexical_cast_bool ''0'' = Some False"
  by (simp add: lexical_cast_bool_def)

lemma lexical_cast_bool_true: "lexical_cast_bool ''true'' = None"
  by (simp add: lexical_cast_bool_def)

lemma lexical_cast_bool_false: "lexical_cast_bool ''false'' = None"
  by (simp add: lexical_cast_bool_def)

lemma getStateSpaceFactory_type_result:
  "t \<noteq> [] \<Longrightarrow>
     getStateSpaceFactory_type fs t =
       (case map_of fs t of
          Some f \<Rightarrow> (Some f, [(DEBUG, UsingParameterization t)])
        | None \<Rightarrow> (None, [(ERROR, FactoryNotFound t)]))"
  by (simp add: getStateSpaceFactory_type_def split: option.splits)

text \<open>
  Claim C1 as it stands promises the joint-model factory whenever tier 1 does not apply and
  \<open>enforce_joint_model_state_space\<close> is set to true. With
  \<open>enforce_constrained_state_space = false\<close>, written as the word, and
  \<open>enforce_joint_model_state_space = 1\<close>, the conversion of line 557 throws
  \<open>bad_lexical_cast\<close> and no factory is chosen.
\<close>

theorem unreadable_flag_breaks_tiers:
  "select_factory default_factories
     (arm_config [(''enforce_constrained_state_space'', ''false''),
                  (''enforce_joint_model_state_space'', ''1'')])
     (request_with [] []) = Inl BadLexicalCast"
  by (simp add: select_factory_def arm_config_def lexical_cast_bool_false)

text \<open>
  Claim C1, amended. For a request and the configuration it resolves to, a flag reads as true
  or false when its key is present with a value that \<open>lexical_cast<bool>\<close> converts to
  that, and is unreadable when the key is present with a value that the conversion rejects.
  (1) If \<open>enforce_constrained_state_space\<close> reads as true and the request has exactly one
  position constraint or exactly one orientation constraint, the result is the factory
  registered under the constrained type (the empty pointer and an error if there is none).
  (2) Otherwise, with \<open>enforce_constrained_state_space\<close> absent or readable, if
  \<open>enforce_joint_model_state_space\<close> reads as true, the result is the factory registered
  under the joint-model type. (3) Otherwise, with \<open>enforce_joint_model_state_space\<close>
  absent or read as false, the result is the factory that scoring selects for the
  configuration's group and the request: the first factory of the walk whose score is positive
  and greatest, or the empty pointer and an error when no score is positive. If
  \<open>enforce_constrained_state_space\<close> is unreadable, or tier 1 does not apply and
  \<open>enforce_joint_model_state_space\<close> is unreadable, the selection throws
  \<open>bad_lexical_cast\<close>. With \<open>enforce_constrained_state_space\<close> read as true and no path
  constraints the selection is the one for the configuration without that flag.
\<close>

theorem select_factory_three_tier:
  "(let ec = pcs_config pc ''enforce_constrained_state_space'';
        ej = pcs_config pc ''enforce_joint_model_state_space'';
        one = (length (position_constraints (path_constraints req)) = 1 \<or>
               length (orientation_constraints (path_constraints req)) = 1);
        ec_unreadable = (\<exists>v. ec = Some v \<and> lexical_cast_bool v = None);
        tier1 = ((\<exists>v. ec = Some v \<and> lexical_cast_bool v = Some True) \<and> one);
        not_tier1 = (ec = None \<or> (\<exists>v. ec = Some v \<and> (lexical_cast_bool v = Some False \<or>
                                        lexical_cast_bool v = Some True \<and> \<not> one)));
        ej_unreadable = (\<exists>v. ej = Some v \<and> lexical_cast_bool v = None);
        tier2 = (\<exists>v. ej = Some v \<and> lexical_cast_bool v = Some True);
        not_tier2 = (ej = None \<or> (\<exists>v. ej = Some v \<and> lexical_cast_bool v = Some False));
        score = (\<lambda>f. canRepresentProblem f (pcs_group pc) req)
    in (tier1 \<longrightarrow>
          select_factory fs pc req =
            Inr (case map_of fs CONSTRAINED_PARAMETERIZATION_TYPE of
                   Some f \<Rightarrow> (Some f, [(DEBUG, UsingParameterization CONSTRAINED_PARAMETERIZATION_TYPE)])
                 | None \<Rightarrow> (None, [(ERROR, FactoryNotFound CONSTRAINED_PARAMETERIZATION_TYPE)]))) \<and>
       (not_tier1 \<and> tier2 \<longrightarrow>
          select_factory fs pc req =
            Inr (case map_of fs JOINT_PARAMETERIZATION_TYPE of
                   Some f \<Rightarrow> (Some f, [(DEBUG, UsingParameterization JOINT_PARAMETERIZATION_TYPE)])
                 | None \<Rightarrow> (None, [(ERROR, FactoryNotFound JOINT_PARAMETERIZATION_TYPE)]))) \<and>
       (not_tier1 \<and> not_tier2 \<longrightarrow>
          (\<exists>r lg. select_factory fs pc req = Inr (r, lg) \<and>
             (case r of
                None \<Rightarrow> (\<forall>e \<in> set fs. score (snd e) \<le> 0) \<and> lg = [(ERROR, NoKnownStateSpaces)]
              | Some f \<Rightarrow>
                  (\<exists>pre k post. fs = pre @ (k, f) # post \<and>
                     lg = [(DEBUG, UsingParameterization k)] \<and> 0 < score f \<and>
                     (\<forall>e \<in> set pre. score (snd e) < score f) \<and>
                     (\<forall>e \<in> set post. score (snd e) \<le> score f))))) \<and>
       (ec_unreadable \<or> not_tier1 \<and> ej_unreadable \<longrightarrow>
          select_factory fs pc req = Inl BadLexicalCast) \<and>
       ((\<exists>v. ec = Some v \<and> lexical_cast_bool v = Some True) \<and>
        position_constraints (path_constraints req) = [] \<and>
        orientation_constraints (path_constraints req) = [] \<longrightarrow>
          select_factory fs pc req =
            select_factory fs
              (pc\<lparr>pcs_config := (pcs_config pc)(''enforce_constrained_state_space'' := None)\<rparr>) req))"
proof -
  have c: "CONSTRAINED_PARAMETERIZATION_TYPE \<noteq> []" by (simp add: CONSTRAINED_PARAMETERIZATION_TYPE_def)
  have j: "JOINT_PARAMETERIZATION_TYPE \<noteq> []" by (simp add: JOINT_PARAMETERIZATION_TYPE_def)
  note walk = getStateSpaceFactory_problem_walk [of fs "pcs_group pc" req]
  obtain r lg where res: "getStateSpaceFactory_problem fs (pcs_group pc) req = (r, lg)"
    by (cases "getStateSpaceFactory_problem fs (pcs_group pc) req")
  have pin: "(case r of
                None \<Rightarrow> (\<forall>e \<in> set fs. canRepresentProblem (snd e) (pcs_group pc) req \<le> 0) \<and>
                         lg = [(ERROR, NoKnownStateSpaces)]
              | Some f \<Rightarrow>
                  (\<exists>pre k post. fs = pre @ (k, f) # post \<and>
                     lg = [(DEBUG, UsingParameterization k)] \<and>
                     0 < canRepresentProblem f (pcs_group pc) req \<and>
                     (\<forall>e \<in> set pre. canRepresentProblem (snd e) (pcs_group pc) req
                                       < canRepresentProblem f (pcs_group pc) req) \<and>
                     (\<forall>e \<in> set post. canRepresentProblem (snd e) (pcs_group pc) req
                                       \<le> canRepresentProblem f (pcs_group pc) req)))"
    using walk unfolding res by simp
  show ?thesis
    unfolding Let_def
  proof (intro conjI impI)
    assume "(\<exists>v. pcs_config pc ''enforce_constrained_state_space'' = Some v \<and>
                 lexical_cast_bool v = Some True) \<and>
            (length (position_constraints (path_constraints req)) = 1 \<or>
             length (orientation_constraints (path_constraints req)) = 1)"
    then show "select_factory fs pc req =
            Inr (case map_of fs CONSTRAINED_PARAMETERIZATION_TYPE of
                   Some f \<Rightarrow> (Some f, [(DEBUG, UsingParameterization CONSTRAINED_PARAMETERIZATION_TYPE)])
                 | None \<Rightarrow> (None, [(ERROR, FactoryNotFound CONSTRAINED_PARAMETERIZATION_TYPE)]))"
      by (auto simp: select_factory_def getStateSpaceFactory_type_result [OF c])
  next
    assume "(pcs_config pc ''enforce_constrained_state_space'' = None \<or>
             (\<exists>v. pcs_config pc ''enforce_constrained_state_space'' = Some v \<and>
                  (lexical_cast_bool v = Some False \<or>
                   lexical_cast_bool v = Some True \<and>
                   \<not> (length (position_constraints (path_constraints req)) = 1 \<or>
                       length (orientation_constraints (path_constraints req)) = 1)))) \<and>
            (\<exists>v. pcs_config pc ''enforce_joint_model_state_space'' = Some v \<and>
                 lexical_cast_bool v = Some True)"
    then show "select_factory fs pc req =
            Inr (case map_of fs JOINT_PARAMETERIZATION_TYPE of
                   Some f \<Rightarrow> (Some f, [(DEBUG, UsingParameterization JOINT_PARAMETERIZATION_TYPE)])
                 | None \<Rightarrow> (None, [(ERROR, FactoryNotFound JOINT_PARAMETERIZATION_TYPE)]))"
      by (auto simp: select_factory_def select_factory_unconstrained_def
            getStateSpaceFactory_type_result [OF j])
  next
    assume "(pcs_config pc ''enforce_constrained_state_space'' = None \<or>
             (\<exists>v. pcs_config pc ''enforce_constrained_state_space'' = Some v \<and>
                  (lexical_cast_bool v = Some False \<or>
                   lexical_cast_bool v = Some True \<and>
                   \<not> (length (position_constraints (path_constraints req)) = 1 \<or>
                       length (orientation_constraints (path_constraints req)) = 1)))) \<and>
            (pcs_config pc ''enforce_joint_model_state_space'' = None \<or>
             (\<exists>v. pcs_config pc ''enforce_joint_model_state_space'' = Some v \<and>
                  lexical_cast_bool v = Some False))"
    then have "select_factory fs pc req = Inr (r, lg)"
      by (auto simp: select_factory_def select_factory_unconstrained_def res)
    with pin show "\<exists>r lg. select_factory fs pc req = Inr (r, lg) \<and>
             (case r of
                None \<Rightarrow> (\<forall>e \<in> set fs. canRepresentProblem (snd e) (pcs_group pc) req \<le> 0) \<and>
                         lg = [(ERROR, NoKnownStateSpaces)]
              | Some f \<Rightarrow>
                  (\<exists>pre k post. fs = pre @ (k, f) # post \<and>
                     lg = [(DEBUG, UsingParameterization k)] \<and>
                     0 < canRepresentProblem f (pcs_group pc) req \<and>
                     (\<forall>e \<in> set pre. canRepresentProblem (snd e) (pcs_group pc) req
                                       < canRepresentProblem f (pcs_group pc) req) \<and>
                     (\<forall>e \<in> set post. canRepresentProblem (snd e) (pcs_group pc) req
                                       \<le> canRepresentProblem f (pcs_group pc) req)))"
      by blast
  next
    assume "(\<exists>v. pcs_config pc ''enforce_constrained_state_space'' = Some v \<and> lexical_cast_bool v = None) \<or>
            (pcs_config pc ''enforce_constrained_state_space'' = None \<or>
             (\<exists>v. pcs_config pc ''enforce_constrained_state_space'' = Some v \<and>
                  (lexical_cast_bool v = Some False \<or>
                   lexical_cast_bool v = Some True \<and>
                   \<not> (length (position_constraints (path_constraints req)) = 1 \<or>
                       length (orientation_constraints (path_constraints req)) = 1)))) \<and>
            (\<exists>v. pcs_config pc ''enforce_joint_model_state_space'' = Some v \<and> lexical_cast_bool v = None)"
    then show "select_factory fs pc req = Inl BadLexicalCast"
      by (auto simp: select_factory_def select_factory_unconstrained_def)
  next
    assume "(\<exists>v. pcs_config pc ''enforce_constrained_state_space'' = Some v \<and>
                 lexical_cast_bool v = Some True) \<and>
            position_constraints (path_constraints req) = [] \<and>
            orientation_constraints (path_constraints req) = []"
    then show "select_factory fs pc req =
            select_factory fs
              (pc\<lparr>pcs_config := (pcs_config pc)(''enforce_constrained_state_space'' := None)\<rparr>) req"
      by (auto simp: select_factory_def select_factory_unconstrained_def split: option.splits)
  qed
qed

text \<open>
  One configuration and request for each tier, and one with an unreadable
  \<open>enforce_joint_model_state_space\<close>.
\<close>

theorem select_factory_three_tier_witness:
  "select_factory default_factories (arm_config [(''enforce_constrained_state_space'', ''1'')])
       (request_with [7] [])
     = Inr (Some constrained_factory,
            [(DEBUG, UsingParameterization CONSTRAINED_PARAMETERIZATION_TYPE)]) \<and>
   select_factory default_factories
       (arm_config [(''enforce_constrained_state_space'', ''1''), (''enforce_joint_model_state_space'', ''1'')])
       (request_with [] [])
     = Inr (Some joint_factory, [(DEBUG, UsingParameterization JOINT_PARAMETERIZATION_TYPE)]) \<and>
   (\<exists>f lg. select_factory default_factories (arm_config [(''enforce_constrained_state_space'', ''1'')])
              (request_with [] []) = Inr (Some f, lg) \<and>
            canRepresentProblem f ''arm'' (request_with [] []) = 150) \<and>
   select_factory default_factories
       (arm_config [(''enforce_constrained_state_space'', ''0''), (''enforce_joint_model_state_space'', ''true'')])
       (request_with [] [])
     = Inl BadLexicalCast"
proof (intro conjI)
  have ne: "JOINT_PARAMETERIZATION_TYPE \<noteq> CONSTRAINED_PARAMETERIZATION_TYPE"
    by (simp add: JOINT_PARAMETERIZATION_TYPE_def CONSTRAINED_PARAMETERIZATION_TYPE_def)
  have mc: "map_of default_factories CONSTRAINED_PARAMETERIZATION_TYPE = Some constrained_factory"
    by (simp add: default_factories_def constrained_factory_def)
  have mj: "map_of default_factories JOINT_PARAMETERIZATION_TYPE = Some joint_factory"
    using ne by (simp add: default_factories_def joint_factory_def)
  show "select_factory default_factories (arm_config [(''enforce_constrained_state_space'', ''1'')])
       (request_with [7] [])
     = Inr (Some constrained_factory,
            [(DEBUG, UsingParameterization CONSTRAINED_PARAMETERIZATION_TYPE)])"
    using select_factory_three_tier [of "arm_config [(''enforce_constrained_state_space'', ''1'')]"
       "request_with [7] []" default_factories]
    by (simp add: Let_def arm_config_def request_with_def lexical_cast_bool_1 mc)
  show "select_factory default_factories
       (arm_config [(''enforce_constrained_state_space'', ''1''), (''enforce_joint_model_state_space'', ''1'')])
       (request_with [] [])
     = Inr (Some joint_factory, [(DEBUG, UsingParameterization JOINT_PARAMETERIZATION_TYPE)])"
    using select_factory_three_tier [of
       "arm_config [(''enforce_constrained_state_space'', ''1''), (''enforce_joint_model_state_space'', ''1'')]"
       "request_with [] []" default_factories]
    by (simp add: Let_def arm_config_def request_with_def lexical_cast_bool_1 mj)
  show "select_factory default_factories
       (arm_config [(''enforce_constrained_state_space'', ''0''), (''enforce_joint_model_state_space'', ''true'')])
       (request_with [] [])
     = Inl BadLexicalCast"
    using select_factory_three_tier [of
       "arm_config [(''enforce_constrained_state_space'', ''0''), (''enforce_joint_model_state_space'', ''true'')]"
       "request_with [] []" default_factories]
    by (simp add: Let_def arm_config_def request_with_def lexical_cast_bool_0 lexical_cast_bool_true)
  let ?pc = "arm_config [(''enforce_constrained_state_space'', ''1'')]"
  let ?req = "request_with [] []"
  let ?sc = "\<lambda>f. canRepresentProblem f ''arm'' ?req"
  have ant: "(pcs_config ?pc ''enforce_constrained_state_space'' = None \<or>
             (\<exists>v. pcs_config ?pc ''enforce_constrained_state_space'' = Some v \<and>
                  (lexical_cast_bool v = Some False \<or>
                   lexical_cast_bool v = Some True \<and>
                   \<not> (length (position_constraints (path_constraints ?req)) = 1 \<or>
                       length (orientation_constraints (path_constraints ?req)) = 1)))) \<and>
            (pcs_config ?pc ''enforce_joint_model_state_space'' = None \<or>
             (\<exists>v. pcs_config ?pc ''enforce_joint_model_state_space'' = Some v \<and>
                  lexical_cast_bool v = Some False))"
    by (simp add: arm_config_def request_with_def lexical_cast_bool_1)
  have grp: "pcs_group ?pc = ''arm''" by (simp add: arm_config_def)
  note third = select_factory_three_tier [of ?pc ?req default_factories, unfolded Let_def,
                 THEN conjunct2, THEN conjunct2, THEN conjunct1, rule_format, OF ant, unfolded grp]
  then obtain r lg where sel: "select_factory default_factories ?pc ?req = Inr (r, lg)"
    and pin: "(case r of
                None \<Rightarrow> (\<forall>e \<in> set default_factories. ?sc (snd e) \<le> 0) \<and>
                         lg = [(ERROR, NoKnownStateSpaces)]
              | Some f \<Rightarrow>
                  (\<exists>pre k post. default_factories = pre @ (k, f) # post \<and>
                     lg = [(DEBUG, UsingParameterization k)] \<and> 0 < ?sc f \<and>
                     (\<forall>e \<in> set pre. ?sc (snd e) < ?sc f) \<and>
                     (\<forall>e \<in> set post. ?sc (snd e) \<le> ?sc f)))"
    by blast
  have pose: "(''PoseModel'', scoring_factory ''PoseModel'' 150) \<in> set default_factories"
    by (simp add: default_factories_def)
  have scores: "\<forall>e \<in> set default_factories. ?sc (snd e) \<le> 150"
    by (simp add: default_factories_def scoring_factory_def)
  show "\<exists>f lg. select_factory default_factories ?pc ?req = Inr (Some f, lg) \<and> ?sc f = 150"
  proof (cases r)
    case None
    with pin pose have "?sc (scoring_factory ''PoseModel'' 150) \<le> 0" by fastforce
    then have False by (simp add: scoring_factory_def)
    then show ?thesis ..
  next
    case (Some f)
    with pin obtain pre k post where sp: "default_factories = pre @ (k, f) # post"
      and b: "\<forall>e \<in> set pre. ?sc (snd e) < ?sc f" and a: "\<forall>e \<in> set post. ?sc (snd e) \<le> ?sc f"
      by auto
    have "(k, f) \<in> set default_factories" unfolding sp by simp
    with scores have le: "?sc f \<le> 150" by fastforce
    from pose have "(''PoseModel'', scoring_factory ''PoseModel'' 150) \<in> set pre \<or>
       (''PoseModel'', scoring_factory ''PoseModel'' 150) = (k, f) \<or>
       (''PoseModel'', scoring_factory ''PoseModel'' 150) \<in> set post" unfolding sp by auto
    with a b have "?sc (scoring_factory ''PoseModel'' 150) \<le> ?sc f" by fastforce
    then have "150 \<le> ?sc f" by (simp add: scoring_factory_def)
    with le sel Some show ?thesis by simp
  qed
qed

subsection \<open>The planner allocator\<close>

lemma allocatePersistentPlanner_Some:
  "allocatePersistentPlanner T d = Some p \<Longrightarrow> p = persistent_planner T d"
  by (cases T) simp_all

lemma allocatePlannerImpl_result:
  "allocatePlannerImpl load T n spec ld store path al = (p, al', lg) \<Longrightarrow>
     name_set p = (if n = [] then None else Some n) \<and>
     params_set p = Some (spec_config spec) \<and>
     algorithm p = T \<and>
     planners al' = planners al"
  by (auto simp: allocatePlannerImpl_def Let_def fresh_planner_def persistent_planner_def
           split: if_splits option.splits dest!: allocatePersistentPlanner_Some)

lemma allocatePlannerImpl_unsupported_load:
  assumes "allocatePersistentPlanner T (load path) = None"
  shows "allocatePlannerImpl load T n spec True store path al =
           ((if n = [] then fresh_planner T else (fresh_planner T)\<lparr>name_set := Some n\<rparr>)
              \<lparr>params_set := Some (spec_config spec)\<rparr>,
            (if store then al\<lparr>planner_data_storage_paths := (planner_data_storage_paths al)(n \<mapsto> path)\<rparr> else al),
            [(INFO, LoadingPlannerData (numEdges (load path)) (numVertices (load path))),
             (ERROR, PersistentNotSupported n)])"
  using assms by (simp add: allocatePlannerImpl_def Let_def)

text \<open>
  Claim C4 says that the reserved keys are removed from the configuration before it is
  applied to the planner's parameters. The keys are erased from the local copy \<open>cfg\<close>, and
  \<open>setParams\<close> is given \<open>spec.config_\<close>: for a PRM planner configured with
  \<open>multi_query_planning_enabled = 1\<close>, the map given to \<open>setParams\<close> holds that key with
  its value.
\<close>

theorem allocatePlanner_reserved_key_reaches_setParams:
  "(case allocatePlanner no_stored_data PRM ''arm[PRM]'' multi_query_spec empty_allocator of
      Inr (Some p, al, lg) \<Rightarrow> (case params_set p of Some cfg \<Rightarrow> cfg ''multi_query_planning_enabled'' | None \<Rightarrow> None)
    | _ \<Rightarrow> None) = Some ''1''"
  by (simp add: allocatePlanner_def take_bool_def multi_query_spec_def spec_of_def
        empty_allocator_def lexical_cast_bool_1 allocatePlannerImpl_def Let_def fresh_planner_def)

text \<open>
  Claim C5 says that an algorithm without persistent reconstruction never gets a null
  planner. With multi-query planning enabled for RRTConnect, the first allocation under a name
  stores a new planner; the second finds it, asks \<open>allocatePersistentPlanner\<close> for the
  replacement and returns what it gets, a null pointer.
\<close>

theorem allocatePlanner_second_call_returns_null:
  "(case allocatePlanner no_stored_data RRTConnect ''arm[RRTConnect]'' multi_query_spec empty_allocator of
      Inr (p1, al1, lg1) \<Rightarrow>
        map_sum id fst (allocatePlanner no_stored_data RRTConnect ''arm[RRTConnect]'' multi_query_spec al1)
    | Inl e \<Rightarrow> Inl e) = Inr None"
  by (simp add: allocatePlanner_def take_bool_def multi_query_spec_def spec_of_def
        empty_allocator_def lexical_cast_bool_1 allocatePlannerImpl_def Let_def fresh_planner_def)

text \<open>
  Claim C6 says that every returned planner has been given the requested name and the
  parameters of the configuration, also when multi-query planning is enabled and a planner is
  already stored under the name. For PRM with multi-query planning enabled, the second
  allocation under a name returns the planner that \<open>allocatePersistentPlanner\<close> built from
  the data of the first, on which neither \<open>setName\<close> nor \<open>setParams\<close> has been called:
  lines 125 to 133 return it without the steps of lines 202 to 207.
\<close>

theorem allocatePlanner_reuse_skips_name_and_params:
  "(case allocatePlanner no_stored_data PRM ''arm[PRM]'' multi_query_spec empty_allocator of
      Inr (p1, al1, lg1) \<Rightarrow>
        map_sum id (\<lambda>r. map_option (\<lambda>q. (seed q, name_set q, params_set q)) (fst r))
          (allocatePlanner no_stored_data PRM ''arm[PRM]'' multi_query_spec al1)
    | Inl e \<Rightarrow> Inl e) = Inr (Some (Some \<lparr>numVertices = 0, numEdges = 0\<rparr>, None, None))"
  by (simp add: allocatePlanner_def take_bool_def multi_query_spec_def spec_of_def
        empty_allocator_def lexical_cast_bool_1 allocatePlannerImpl_def Let_def fresh_planner_def
        persistent_planner_def)

text \<open>
  The first of the two allocations goes through \<open>allocatePlannerImpl\<close>, which names and
  configures the planner.
\<close>

lemma allocatePlanner_first_call_named:
  "map_sum id (\<lambda>r. map_option (\<lambda>q. (seed q, name_set q, params_set q)) (fst r))
     (allocatePlanner no_stored_data PRM ''arm[PRM]'' multi_query_spec empty_allocator)
   = Inr (Some (None, Some ''arm[PRM]'', Some (spec_config multi_query_spec)))"
  by (simp add: allocatePlanner_def take_bool_def multi_query_spec_def spec_of_def
        empty_allocator_def lexical_cast_bool_1 allocatePlannerImpl_def Let_def fresh_planner_def)

subsection \<open>The context cache\<close>

lemma update_object_fields [simp]:
  "contexts (update_object c f st) = contexts st"
  "use_count (update_object c f st) = use_count st"
  "next_address (update_object c f st) = next_address st"
  "dom (objects (update_object c f st)) = dom (objects st)"
  by (auto simp: update_object_def split: option.splits)

lemma update_object_at:
  "objects (update_object c f st) c = map_option f (objects st c)"
  by (simp add: update_object_def split: option.splits)

lemma release_fields [simp]:
  "contexts (release c st) = contexts st"
  "objects (release c st) = objects st"
  "next_address (release c st) = next_address st"
  "use_count (release c st) = (use_count st)(c := use_count st c - 1)"
  by (simp_all add: release_def)

text \<open>The two ways through \<open>getPlanningContext(config, factory, req)\<close>: a cached context is found, or none is.\<close>

lemma acquire_hit:
  assumes "contexts st (pcs_name config, getType fac) = Some l"
    and "find (\<lambda>c. use_count st c = 1) l = Some c"
  shows "getPlanningContext_config ext m config fac req st =
           (c, update_object c (apply_manager_settings m (pcs_config config))
                 (st\<lparr>use_count := (use_count st)(c := use_count st c + 1)\<rparr>),
            [(DEBUG, ReusingCachedContext)])"
  using assms by (simp add: getPlanningContext_config_def)

lemma acquire_miss:
  assumes "find (\<lambda>c. use_count st c = 1) (cached_list st (pcs_name config, getType fac)) = None"
    and "getPlanningContext_config ext m config fac req st = (c, st', lg)"
  shows "c = next_address st"
    and "next_address st' = Suc (next_address st)"
    and "contexts st' = (if getType fac = CONSTRAINED_PARAMETERIZATION_TYPE then contexts st
                         else (contexts st)((pcs_name config, getType fac) \<mapsto>
                                cached_list st (pcs_name config, getType fac) @ [next_address st]))"
    and "use_count st' = (use_count st)(next_address st :=
                            (if getType fac = CONSTRAINED_PARAMETERIZATION_TYPE then 1 else 2))"
    and "objects st' = (objects st)(next_address st \<mapsto>
            apply_manager_settings m (pcs_config config)
              \<lparr>ctx_name = pcs_name config,
               ctx_spec = \<lparr>spec_config = pcs_config config, spec_state_space = getType fac,
                           spec_constrained_state_space =
                             (if getType fac = CONSTRAINED_PARAMETERIZATION_TYPE
                              then Some (path_constraints req) else None)\<rparr>,
               ctx_limits = constructed_limits ext\<rparr>)"
proof -
  have cached: "(case contexts st (pcs_name config, getType fac) of None \<Rightarrow> None
                 | Some cached_contexts \<Rightarrow> find (\<lambda>c. use_count st c = 1) cached_contexts) = None"
    using assms(1) by (simp add: cached_list_def split: option.splits)
  have c: "c = fst (getPlanningContext_config ext m config fac req st)"
    using assms(2) by simp
  show "c = next_address st"
    unfolding c getPlanningContext_config_def Let_def cached by simp
  have st': "st' = fst (snd (getPlanningContext_config ext m config fac req st))"
    using assms(2) by simp
  show "next_address st' = Suc (next_address st)"
    unfolding st' getPlanningContext_config_def Let_def cached by simp
  show "contexts st' = (if getType fac = CONSTRAINED_PARAMETERIZATION_TYPE then contexts st
                         else (contexts st)((pcs_name config, getType fac) \<mapsto>
                                cached_list st (pcs_name config, getType fac) @ [next_address st]))"
    unfolding st' getPlanningContext_config_def Let_def cached by (simp add: cached_list_def)
  show "use_count st' = (use_count st)(next_address st :=
                            (if getType fac = CONSTRAINED_PARAMETERIZATION_TYPE then 1 else 2))"
    unfolding st' getPlanningContext_config_def Let_def cached by (simp add: numeral_2_eq_2)
  show "objects st' = (objects st)(next_address st \<mapsto>
            apply_manager_settings m (pcs_config config)
              \<lparr>ctx_name = pcs_name config,
               ctx_spec = \<lparr>spec_config = pcs_config config, spec_state_space = getType fac,
                           spec_constrained_state_space =
                             (if getType fac = CONSTRAINED_PARAMETERIZATION_TYPE
                              then Some (path_constraints req) else None)\<rparr>,
               ctx_limits = constructed_limits ext\<rparr>)"
    unfolding st' getPlanningContext_config_def Let_def cached by (simp add: update_object_def)
qed

lemma find_split:
  "find P xs = Some c \<Longrightarrow> \<exists>pre post. xs = pre @ c # post \<and> P c \<and> (\<forall>x \<in> set pre. \<not> P x)"
proof (induction xs)
  case Nil
  then show ?case by simp
next
  case (Cons a xs)
  show ?case
  proof (cases "P a")
    case True
    with Cons.prems have "a = c" by simp
    with True show ?thesis by (intro exI [of _ "[]"] exI [of _ xs]) simp
  next
    case False
    with Cons.prems have "find P xs = Some c" by simp
    from Cons.IH [OF this] obtain pre post where
      "xs = pre @ c # post" "P c" "\<forall>x \<in> set pre. \<not> P x" by blast
    with False have "a # xs = (a # pre) @ c # post \<and> P c \<and> (\<forall>x \<in> set (a # pre). \<not> P x)"
      by simp
    then show ?thesis by blast
  qed
qed

lemma find_only:
  "c \<in> set xs \<Longrightarrow> P c \<Longrightarrow> (\<forall>x \<in> set xs. P x \<longrightarrow> x = c) \<Longrightarrow> find P xs = Some c"
proof (induction xs)
  case Nil
  then show ?case by simp
next
  case (Cons a xs)
  show ?case
  proof (cases "P a")
    case True
    with Cons.prems(3) have "a = c" by simp
    with True show ?thesis by simp
  next
    case False
    with Cons.prems(1,2) have "c \<in> set xs" by auto
    moreover from Cons.prems(3) have "\<forall>x \<in> set xs. P x \<longrightarrow> x = c" by simp
    ultimately have "find P xs = Some c" using Cons.IH Cons.prems(2) by blast
    with False show ?thesis by simp
  qed
qed

lemma cached_list_Some: "contexts st key = Some l \<Longrightarrow> cached_list st key = l"
  by (simp add: cached_list_def)

lemma find_cached_Some:
  "find P (cached_list st key) = Some c \<Longrightarrow> contexts st key = Some (cached_list st key)"
  by (auto simp: cached_list_def split: option.splits)

lemma acquire_hit':
  assumes "find (\<lambda>c. use_count st c = 1) (cached_list st (pcs_name config, getType fac)) = Some c"
  shows "getPlanningContext_config ext m config fac req st =
           (c, update_object c (apply_manager_settings m (pcs_config config))
                 (st\<lparr>use_count := (use_count st)(c := use_count st c + 1)\<rparr>),
            [(DEBUG, ReusingCachedContext)])"
  using acquire_hit [OF find_cached_Some [OF assms] assms] .

lemma wf_empty_store: "wf_store empty_store"
  by (simp add: wf_store_def empty_store_def)

lemma wf_release: "wf_store st \<Longrightarrow> wf_store (release c st)"
  by (simp add: wf_store_def)

lemma hit_store:
  assumes "find (\<lambda>c. use_count st c = 1) (cached_list st (pcs_name config, getType fac)) = Some d"
    and acq: "getPlanningContext_config ext m config fac req st = (c, st', lg)"
  shows "c = d"
    and "st' = update_object d (apply_manager_settings m (pcs_config config))
                 (st\<lparr>use_count := (use_count st)(d := use_count st d + 1)\<rparr>)"
proof -
  have "(c, st', lg) = (d, update_object d (apply_manager_settings m (pcs_config config))
                 (st\<lparr>use_count := (use_count st)(d := use_count st d + 1)\<rparr>),
            [(DEBUG, ReusingCachedContext)])"
    unfolding acq [symmetric] by (rule acquire_hit' [OF assms(1)])
  then have both: "c = d \<and> st' = update_object d (apply_manager_settings m (pcs_config config))
                 (st\<lparr>use_count := (use_count st)(d := use_count st d + 1)\<rparr>)"
    by (simp only: prod.inject)
  from both show "c = d" by (rule conjunct1)
  from both show "st' = update_object d (apply_manager_settings m (pcs_config config))
                 (st\<lparr>use_count := (use_count st)(d := use_count st d + 1)\<rparr>)"
    by (rule conjunct2)
qed

lemma wf_acquire:
  assumes wf: "wf_store st"
    and acq: "getPlanningContext_config ext m config fac req st = (c, st', lg)"
  shows "wf_store st'"
proof (cases "find (\<lambda>c. use_count st c = 1) (cached_list st (pcs_name config, getType fac))")
  case (Some d)
  note st' = hit_store(2) [OF Some acq]
  have "contexts st' = contexts st" "next_address st' = next_address st"
    "dom (objects st') = dom (objects st)" unfolding st' by simp_all
  with wf show ?thesis unfolding wf_store_def by simp
next
  case None
  let ?key = "(pcs_name config, getType fac)"
  note ms = acquire_miss [OF None acq]
  have nx: "next_address st' = Suc (next_address st)" by (rule ms(2))
  have cx: "contexts st' = (if getType fac = CONSTRAINED_PARAMETERIZATION_TYPE then contexts st
               else (contexts st)(?key \<mapsto> cached_list st ?key @ [next_address st]))"
    by (rule ms(3))
  have dm: "dom (objects st') = insert (next_address st) (dom (objects st))"
    unfolding ms(5) by simp
  from wf have old: "\<And>key l. contexts st key = Some l \<Longrightarrow>
      snd key \<noteq> CONSTRAINED_PARAMETERIZATION_TYPE \<and> (\<forall>c \<in> set l. c < next_address st)"
    and dom_old: "dom (objects st) = {..<next_address st}"
    by (auto simp: wf_store_def)
  have cl: "\<forall>c \<in> set (cached_list st ?key). c < next_address st"
  proof (cases "contexts st ?key")
    case None
    then show ?thesis by (simp add: cached_list_def)
  next
    case (Some l)
    with old [OF Some] show ?thesis by (simp add: cached_list_def)
  qed
  have new: "snd key \<noteq> CONSTRAINED_PARAMETERIZATION_TYPE \<and> (\<forall>c \<in> set l. c < next_address st')"
    if h: "contexts st' key = Some l" for key l
  proof (cases "getType fac \<noteq> CONSTRAINED_PARAMETERIZATION_TYPE \<and> key = ?key")
    case True
    with h cx have "l = cached_list st ?key @ [next_address st]" by simp
    with cl nx True show ?thesis by (simp add: less_Suc_eq)
  next
    case False
    have "contexts st' key = contexts st key"
    proof (cases "getType fac = CONSTRAINED_PARAMETERIZATION_TYPE")
      case True
      then show ?thesis using cx by simp
    next
      case ne: False
      with False have "key \<noteq> ?key" by simp
      then show ?thesis using cx ne by simp
    qed
    with h have "contexts st key = Some l" by simp
    from old [OF this] nx show ?thesis by (simp add: less_Suc_eq)
  qed
  have dom_new: "dom (objects st') = {..<next_address st'}"
    unfolding dm dom_old nx by (simp add: lessThan_Suc)
  show ?thesis
    unfolding wf_store_def
  proof (rule conjI)
    show "\<forall>key l. contexts st' key = Some l \<longrightarrow>
        snd key \<noteq> CONSTRAINED_PARAMETERIZATION_TYPE \<and> (\<forall>c \<in> set l. c < next_address st')"
      using new by blast
  next
    show "dom (objects st') = {..<next_address st'}" by (rule dom_new)
  qed
qed

lemma wf_run: "wf_store st \<Longrightarrow> wf_store (run ext ops st)"
proof (induction ops arbitrary: st)
  case Nil
  then show ?case by simp
next
  case (Cons op ops)
  show ?case
  proof (cases op)
    case (Acquire m config fac req)
    obtain c st' lg where acq: "getPlanningContext_config ext m config fac req st = (c, st', lg)"
      by (cases "getPlanningContext_config ext m config fac req st") auto
    from wf_acquire [OF Cons.prems acq] have "wf_store st'" .
    from Cons.IH [OF this] show ?thesis using Acquire acq by simp
  next
    case (Release c)
    from Cons.IH [OF wf_release [OF Cons.prems]] show ?thesis using Release by simp
  qed
qed

lemma wf_reachable: "wf_store (run ext ops empty_store)"
  by (rule wf_run [OF wf_empty_store])

subsection \<open>Constrained contexts and the cache\<close>

lemma acquire_keeps_uncached:
  assumes lt: "c0 < next_address st"
    and un: "\<forall>key l. contexts st key = Some l \<longrightarrow> c0 \<notin> set l"
    and acq: "getPlanningContext_config ext m config fac req st = (c, st', lg)"
  shows "c0 < next_address st' \<and> (\<forall>key l. contexts st' key = Some l \<longrightarrow> c0 \<notin> set l)"
proof (cases "find (\<lambda>c. use_count st c = 1) (cached_list st (pcs_name config, getType fac))")
  case (Some d)
  note st' = hit_store(2) [OF Some acq]
  have "contexts st' = contexts st" "next_address st' = next_address st"
    unfolding st' by simp_all
  with lt un show ?thesis by simp
next
  case None
  let ?key = "(pcs_name config, getType fac)"
  note ms = acquire_miss [OF None acq]
  have "c0 \<notin> set (cached_list st ?key)"
  proof (cases "contexts st ?key")
    case None
    then show ?thesis by (simp add: cached_list_def)
  next
    case (Some l)
    with un show ?thesis by (simp add: cached_list_def)
  qed
  with lt have fresh: "c0 \<notin> set (cached_list st ?key @ [next_address st])" by simp
  have "c0 \<notin> set l" if h: "contexts st' key = Some l" for key l
  proof (cases "getType fac \<noteq> CONSTRAINED_PARAMETERIZATION_TYPE \<and> key = ?key")
    case True
    with h ms(3) have "l = cached_list st ?key @ [next_address st]" by simp
    with fresh show ?thesis by simp
  next
    case False
    have "contexts st' key = contexts st key"
    proof (cases "getType fac = CONSTRAINED_PARAMETERIZATION_TYPE")
      case True
      then show ?thesis using ms(3) by simp
    next
      case ne: False
      with False have "key \<noteq> ?key" by simp
      then show ?thesis using ms(3) ne by simp
    qed
    with h have "contexts st key = Some l" by simp
    with un show ?thesis by blast
  qed
  moreover have "c0 < next_address st'" using lt ms(2) by simp
  ultimately show ?thesis by blast
qed

lemma run_keeps_uncached:
  "c0 < next_address st \<Longrightarrow> (\<forall>key l. contexts st key = Some l \<longrightarrow> c0 \<notin> set l) \<Longrightarrow>
     c0 < next_address (run ext ops st) \<and>
     (\<forall>key l. contexts (run ext ops st) key = Some l \<longrightarrow> c0 \<notin> set l)"
proof (induction ops arbitrary: st)
  case Nil
  then show ?case by simp
next
  case (Cons op ops)
  show ?case
  proof (cases op)
    case (Acquire m config fac req)
    obtain c st' lg where acq: "getPlanningContext_config ext m config fac req st = (c, st', lg)"
      by (cases "getPlanningContext_config ext m config fac req st") auto
    from acquire_keeps_uncached [OF Cons.prems acq]
    have "c0 < next_address st'" "\<forall>key l. contexts st' key = Some l \<longrightarrow> c0 \<notin> set l"
      by blast+
    from Cons.IH [OF this] show ?thesis using Acquire acq by simp
  next
    case (Release c)
    have "c0 < next_address (release c st)"
      "\<forall>key l. contexts (release c st) key = Some l \<longrightarrow> c0 \<notin> set l"
      using Cons.prems by simp_all
    from Cons.IH [OF this] show ?thesis using Release by simp
  qed
qed

lemma wf_no_constrained_entry:
  "wf_store st \<Longrightarrow> contexts st (n, CONSTRAINED_PARAMETERIZATION_TYPE) = None"
proof (cases "contexts st (n, CONSTRAINED_PARAMETERIZATION_TYPE)")
  case None
  then show ?thesis by simp
next
  case (Some l)
  assume "wf_store st"
  with Some have "snd (n, CONSTRAINED_PARAMETERIZATION_TYPE) \<noteq> CONSTRAINED_PARAMETERIZATION_TYPE"
    unfolding wf_store_def by blast
  then show ?thesis by simp
qed

lemma wf_cached_below:
  "wf_store st \<Longrightarrow> contexts st key = Some l \<Longrightarrow> c \<in> set l \<Longrightarrow> c < next_address st"
  unfolding wf_store_def by blast

lemma wf_fresh_object: "wf_store st \<Longrightarrow> objects st (next_address st) = None"
proof -
  assume "wf_store st"
  then have "dom (objects st) = {..<next_address st}" by (simp add: wf_store_def)
  then have "next_address st \<notin> dom (objects st)" by simp
  then show ?thesis by blast
qed

lemma wf_object_below: "wf_store st \<Longrightarrow> c < next_address st \<Longrightarrow> \<exists>ctx. objects st c = Some ctx"
proof -
  assume "wf_store st" "c < next_address st"
  then have "c \<in> dom (objects st)" by (simp add: wf_store_def)
  then show ?thesis by blast
qed

text \<open>
  Claim C3. In a store that sequences of acquisitions and releases lead to from the empty
  store, an acquisition with a factory of the constrained type leaves the whole cache as it
  is, and the cache has no entry under the key of the configuration name and the constrained
  type. The context it returns is built at a new address, and after any further acquisitions
  and releases no cache entry holds that address.
\<close>

theorem constrained_context_never_cached:
  assumes ty: "getType fac = CONSTRAINED_PARAMETERIZATION_TYPE"
    and acq: "getPlanningContext_config ext m config fac req (run ext ops empty_store) = (c, st', lg)"
  shows "contexts st' = contexts (run ext ops empty_store) \<and>
         contexts st' (pcs_name config, CONSTRAINED_PARAMETERIZATION_TYPE) = None \<and>
         c = next_address (run ext ops empty_store) \<and>
         objects (run ext ops empty_store) c = None \<and>
         (\<forall>later key l. contexts (run ext later st') key = Some l \<longrightarrow> c \<notin> set l)"
proof -
  let ?st = "run ext ops empty_store"
  have wf: "wf_store ?st" by (rule wf_reachable)
  have none: "contexts ?st (pcs_name config, getType fac) = None"
    unfolding ty by (rule wf_no_constrained_entry [OF wf])
  then have "find (\<lambda>c. use_count ?st c = 1) (cached_list ?st (pcs_name config, getType fac)) = None"
    by (simp add: cached_list_def)
  note ms = acquire_miss [OF this acq]
  have cx: "contexts st' = contexts ?st" using ms(3) ty by simp
  have c: "c = next_address ?st" by (rule ms(1))
  have fresh: "objects ?st c = None" unfolding c by (rule wf_fresh_object [OF wf])
  have lt: "c < next_address st'" using ms(2) c by simp
  have un: "\<forall>key l. contexts st' key = Some l \<longrightarrow> c \<notin> set l"
  proof (intro allI impI)
    fix key l assume "contexts st' key = Some l"
    then have "contexts ?st key = Some l" using cx by simp
    then have "\<forall>x \<in> set l. x < next_address ?st" using wf_cached_below [OF wf] by blast
    then show "c \<notin> set l" using c by auto
  qed
  have "\<forall>later key l. contexts (run ext later st') key = Some l \<longrightarrow> c \<notin> set l"
    using run_keeps_uncached [OF lt un] by blast
  with cx none ty c fresh show ?thesis by simp
qed

text \<open>A constrained acquisition after a joint-model context has been cached and released.\<close>

theorem constrained_context_never_cached_witness:
  "getType constrained_factory = CONSTRAINED_PARAMETERIZATION_TYPE \<and>
   contexts (fst (snd (getPlanningContext_config plain_externals (manager_with 0 []) (arm_config [])
                         constrained_factory (request_with [7] [])
                         (run plain_externals warm_up empty_store))))
     = contexts (run plain_externals warm_up empty_store) \<and>
   fst (getPlanningContext_config plain_externals (manager_with 0 []) (arm_config [])
          constrained_factory (request_with [7] []) (run plain_externals warm_up empty_store))
     = next_address (run plain_externals warm_up empty_store)"
proof -
  have ty: "getType constrained_factory = CONSTRAINED_PARAMETERIZATION_TYPE"
    by (simp add: constrained_factory_def scoring_factory_def)
  have acq: "getPlanningContext_config plain_externals (manager_with 0 []) (arm_config [])
               constrained_factory (request_with [7] []) (run plain_externals warm_up empty_store)
             = (fst (getPlanningContext_config plain_externals (manager_with 0 []) (arm_config [])
                  constrained_factory (request_with [7] []) (run plain_externals warm_up empty_store)),
                fst (snd (getPlanningContext_config plain_externals (manager_with 0 []) (arm_config [])
                  constrained_factory (request_with [7] []) (run plain_externals warm_up empty_store))),
                snd (snd (getPlanningContext_config plain_externals (manager_with 0 []) (arm_config [])
                  constrained_factory (request_with [7] []) (run plain_externals warm_up empty_store))))"
    by simp
  from constrained_context_never_cached [OF ty acq] ty show ?thesis by blast
qed

subsection \<open>Reuse of cached contexts\<close>

lemma find_None_all: "find P xs = None \<Longrightarrow> \<forall>x \<in> set xs. \<not> P x"
  by (simp add: find_None_iff)

text \<open>
  Claim C2, amended. Take an acquisition in a store that acquisitions and releases lead to
  from the empty store, and the contexts cached under the key of the configuration name and
  the factory's type. If one of them has no other holder, the first such context of the
  sequence is returned and the cache stays as it is. If each of them has another holder, the
  returned context is at a new address, which no cache entry held, and it is appended to the
  key's entry unless the factory is of the constrained type, in which case the cache stays as
  it is. For a factory that is not of the constrained type, once the holder has let go of the
  returned context the next acquisition for the key returns the same context.
\<close>

theorem acquisition_reuses_or_builds:
  assumes acq: "getPlanningContext_config ext m config fac req (run ext ops empty_store) = (c, st', lg)"
  shows "(let st = run ext ops empty_store;
              key = (pcs_name config, getType fac);
              l = cached_list st key
          in ((\<exists>x \<in> set l. use_count st x = 1) \<longrightarrow>
                (\<exists>pre post. l = pre @ c # post \<and> use_count st c = 1 \<and>
                   (\<forall>x \<in> set pre. use_count st x \<noteq> 1)) \<and>
                contexts st' = contexts st) \<and>
             ((\<forall>x \<in> set l. use_count st x \<noteq> 1) \<longrightarrow>
                c = next_address st \<and> objects st c = None \<and>
                (\<forall>k l'. contexts st k = Some l' \<longrightarrow> c \<notin> set l') \<and>
                objects st' c \<noteq> None \<and>
                contexts st' = (if getType fac = CONSTRAINED_PARAMETERIZATION_TYPE then contexts st
                                else (contexts st)(key \<mapsto> l @ [c]))) \<and>
             (getType fac \<noteq> CONSTRAINED_PARAMETERIZATION_TYPE \<longrightarrow>
                (\<forall>m2 req2. fst (getPlanningContext_config ext m2 config fac req2 (release c st')) = c)))"
proof -
  let ?st = "run ext ops empty_store"
  let ?key = "(pcs_name config, getType fac)"
  let ?l = "cached_list ?st ?key"
  let ?P = "\<lambda>x. use_count ?st x = 1"
  have wf: "wf_store ?st" by (rule wf_reachable)
  have goal: "((\<exists>x \<in> set ?l. ?P x) \<longrightarrow>
                (\<exists>pre post. ?l = pre @ c # post \<and> ?P c \<and> (\<forall>x \<in> set pre. \<not> ?P x)) \<and>
                contexts st' = contexts ?st) \<and>
             ((\<forall>x \<in> set ?l. \<not> ?P x) \<longrightarrow>
                c = next_address ?st \<and> objects ?st c = None \<and>
                (\<forall>k l'. contexts ?st k = Some l' \<longrightarrow> c \<notin> set l') \<and>
                objects st' c \<noteq> None \<and>
                contexts st' = (if getType fac = CONSTRAINED_PARAMETERIZATION_TYPE then contexts ?st
                                else (contexts ?st)(?key \<mapsto> ?l @ [c]))) \<and>
             (getType fac \<noteq> CONSTRAINED_PARAMETERIZATION_TYPE \<longrightarrow>
                (\<forall>m2 req2. fst (getPlanningContext_config ext m2 config fac req2 (release c st')) = c))"
  proof (cases "find ?P ?l")
    case (Some d)
    note hs = hit_store [OF Some acq]
    from find_split [OF Some] obtain pre post where
      sp: "?l = pre @ d # post" "?P d" "\<forall>x \<in> set pre. \<not> ?P x" by blast
    have cx: "contexts st' = contexts ?st" unfolding hs(2) by simp
    have uc: "use_count (release c st') = use_count ?st"
      unfolding hs by (simp add: fun_eq_iff)
    have cl: "cached_list (release c st') ?key = ?l"
      using cx by (simp add: cached_list_def)
    have again: "fst (getPlanningContext_config ext m2 config fac req2 (release c st')) = c" for m2 req2
    proof -
      have "find (\<lambda>x. use_count (release c st') x = 1) (cached_list (release c st') ?key) = Some d"
        unfolding uc cl by (rule Some)
      from acquire_hit' [OF this] show ?thesis using hs(1) by simp
    qed
    have in_l: "d \<in> set ?l" using sp(1) by simp
    have first: "\<exists>pre post. ?l = pre @ c # post \<and> ?P c \<and> (\<forall>x \<in> set pre. \<not> ?P x)"
      using sp hs(1) by blast
    have not_all: "\<not> (\<forall>x \<in> set ?l. \<not> ?P x)" using in_l sp(2) by blast
    show ?thesis using first cx not_all again by blast
  next
    case None
    note ms = acquire_miss [OF None acq]
    have no: "\<forall>x \<in> set ?l. \<not> ?P x" by (rule find_None_all [OF None])
    have fresh: "objects ?st c = None" unfolding ms(1) by (rule wf_fresh_object [OF wf])
    have un: "\<forall>k l'. contexts ?st k = Some l' \<longrightarrow> c \<notin> set l'"
    proof (intro allI impI)
      fix k l' assume "contexts ?st k = Some l'"
      then have "\<forall>x \<in> set l'. x < next_address ?st" using wf_cached_below [OF wf] by blast
      then show "c \<notin> set l'" using ms(1) by auto
    qed
    have ob: "objects st' c \<noteq> None" unfolding ms(5) ms(1) by simp
    have cx: "contexts st' = (if getType fac = CONSTRAINED_PARAMETERIZATION_TYPE then contexts ?st
                                else (contexts ?st)(?key \<mapsto> ?l @ [c]))"
      unfolding ms(1) by (rule ms(3))
    have again: "fst (getPlanningContext_config ext m2 config fac req2 (release c st')) = c"
      if ne: "getType fac \<noteq> CONSTRAINED_PARAMETERIZATION_TYPE" for m2 req2
    proof -
      have cl: "cached_list (release c st') ?key = ?l @ [c]"
        using cx ne by (simp add: cached_list_def)
      have uc: "use_count (release c st') = (use_count ?st)(c := 1)"
        using ms(4) ms(1) ne by (simp add: fun_eq_iff)
      have "find (\<lambda>x. use_count (release c st') x = 1) (cached_list (release c st') ?key) = Some c"
        unfolding cl uc
      proof (rule find_only)
        show "c \<in> set (?l @ [c])" by simp
        show "((use_count ?st)(c := 1)) c = 1" by simp
        show "\<forall>x \<in> set (?l @ [c]). ((use_count ?st)(c := 1)) x = 1 \<longrightarrow> x = c"
          using no by auto
      qed
      from acquire_hit' [OF this] show ?thesis by simp
    qed
    have not_any: "\<not> (\<exists>x \<in> set ?l. ?P x)" using no by blast
    show ?thesis using not_any ms(1) fresh un ob cx again by blast
  qed
  then show ?thesis unfolding Let_def .
qed

text \<open>
  Claim C2 as it stands says that the new context is appended to the cache entry whenever
  every cached context of the key is held elsewhere. For a factory of the constrained type
  and the empty store no context is cached under the key before the acquisition, and none is
  after it.
\<close>

theorem constrained_acquisition_not_appended:
  "cached_list
     (fst (snd (getPlanningContext_config plain_externals (manager_with 0 []) (arm_config [])
                  constrained_factory (request_with [7] []) empty_store)))
     (pcs_name (arm_config []), getType constrained_factory) = [] \<and>
   cached_list empty_store (pcs_name (arm_config []), getType constrained_factory) = []"
  by (simp add: getPlanningContext_config_def empty_store_def constrained_factory_def
        scoring_factory_def cached_list_def Let_def update_object_def)

text \<open>
  A cached joint-model context that nobody holds is returned again; in the empty store a new
  one is built at address 0 and cached.
\<close>

lemma warm_up_store:
  "cached_list (run plain_externals warm_up empty_store)
     (pcs_name (arm_config []), getType joint_factory) = [0]"
  "use_count (run plain_externals warm_up empty_store) 0 = 1"
  by (simp_all add: warm_up_def getPlanningContext_config_def empty_store_def joint_factory_def
        scoring_factory_def cached_list_def Let_def update_object_def release_def arm_config_def
        JOINT_PARAMETERIZATION_TYPE_def CONSTRAINED_PARAMETERIZATION_TYPE_def)

theorem acquisition_reuses_or_builds_witness:
  "fst (getPlanningContext_config plain_externals (manager_with 0 []) (arm_config [])
          joint_factory plain_request (run plain_externals warm_up empty_store)) = 0 \<and>
   contexts (fst (snd (getPlanningContext_config plain_externals (manager_with 0 []) (arm_config [])
          joint_factory plain_request (run plain_externals warm_up empty_store))))
     = contexts (run plain_externals warm_up empty_store) \<and>
   fst (getPlanningContext_config plain_externals (manager_with 0 []) (arm_config [])
          joint_factory plain_request (run plain_externals [] empty_store)) = 0 \<and>
   contexts (fst (snd (getPlanningContext_config plain_externals (manager_with 0 []) (arm_config [])
          joint_factory plain_request (run plain_externals [] empty_store))))
     (pcs_name (arm_config []), getType joint_factory) = Some [0]"
proof -
  let ?r = "getPlanningContext_config plain_externals (manager_with 0 []) (arm_config [])
          joint_factory plain_request (run plain_externals warm_up empty_store)"
  let ?q = "getPlanningContext_config plain_externals (manager_with 0 []) (arm_config [])
          joint_factory plain_request (run plain_externals [] empty_store)"
  have r: "?r = (fst ?r, fst (snd ?r), snd (snd ?r))" by simp
  have q: "?q = (fst ?q, fst (snd ?q), snd (snd ?q))" by simp
  have ne: "getType joint_factory \<noteq> CONSTRAINED_PARAMETERIZATION_TYPE"
    by (simp add: joint_factory_def scoring_factory_def JOINT_PARAMETERIZATION_TYPE_def
          CONSTRAINED_PARAMETERIZATION_TYPE_def)
  have hit: "fst ?r = 0 \<and> contexts (fst (snd ?r)) = contexts (run plain_externals warm_up empty_store)"
    using acquisition_reuses_or_builds [OF r]
    unfolding Let_def
    by (auto simp: Cons_eq_append_conv warm_up_store)
  have e: "cached_list empty_store (pcs_name (arm_config []), getType joint_factory) = []"
    "next_address empty_store = 0" "contexts empty_store = Map.empty"
    by (simp_all add: cached_list_def empty_store_def)
  have miss: "fst ?q = 0 \<and> contexts (fst (snd ?q)) (pcs_name (arm_config []), getType joint_factory) = Some [0]"
    using acquisition_reuses_or_builds [OF q] ne
    unfolding Let_def
    by (simp add: e)
  from hit miss show ?thesis by blast
qed

subsection \<open>The manager's settings on an acquired context\<close>

lemma apply_manager_settings_fields:
  "ctx_max_planning_threads (ctx_limits (apply_manager_settings m cfg ctx)) = max_planning_threads m"
  "ctx_max_goal_samples (ctx_limits (apply_manager_settings m cfg ctx)) = max_goal_samples m"
  "ctx_max_state_sampling_attempts (ctx_limits (apply_manager_settings m cfg ctx))
     = max_state_sampling_attempts m"
  "ctx_max_goal_sampling_attempts (ctx_limits (apply_manager_settings m cfg ctx))
     = max_goal_sampling_attempts m"
  "ctx_minimum_waypoint_count (ctx_limits (apply_manager_settings m cfg ctx)) = minimum_waypoint_count m"
  "spec_config (ctx_spec (apply_manager_settings m cfg ctx)) = cfg"
  "ctx_max_solution_segment_length (ctx_limits (apply_manager_settings m cfg ctx)) =
     (if max_solution_segment_length m > DBL_EPSILON then max_solution_segment_length m
      else ctx_max_solution_segment_length (ctx_limits ctx))"
  by (simp_all add: apply_manager_settings_def Let_def)

text \<open>
  Claim C8, amended. After every acquisition in a store that acquisitions and releases lead
  to from the empty store, whether the context was cached or is new, the returned context
  has the manager's maximum planning threads, maximum goal samples, maximum state sampling
  attempts, maximum goal sampling attempts and minimum waypoint count, and the parameters of
  the configuration. Its maximum solution segment length is the manager's when the manager's
  is greater than the machine epsilon of \<open>double\<close>; otherwise it is the one the context
  had before the acquisition (for a new context, the one its constructor gave it).
\<close>

theorem acquisition_applies_settings:
  assumes acq: "getPlanningContext_config ext m config fac req (run ext ops empty_store) = (c, st', lg)"
  shows "\<exists>ctx. objects st' c = Some ctx \<and>
           ctx_max_planning_threads (ctx_limits ctx) = max_planning_threads m \<and>
           ctx_max_goal_samples (ctx_limits ctx) = max_goal_samples m \<and>
           ctx_max_state_sampling_attempts (ctx_limits ctx) = max_state_sampling_attempts m \<and>
           ctx_max_goal_sampling_attempts (ctx_limits ctx) = max_goal_sampling_attempts m \<and>
           ctx_minimum_waypoint_count (ctx_limits ctx) = minimum_waypoint_count m \<and>
           spec_config (ctx_spec ctx) = pcs_config config \<and>
           ctx_max_solution_segment_length (ctx_limits ctx) =
             (if max_solution_segment_length m > DBL_EPSILON then max_solution_segment_length m
              else (case objects (run ext ops empty_store) c of
                      None \<Rightarrow> ctx_max_solution_segment_length (constructed_limits ext)
                    | Some old \<Rightarrow> ctx_max_solution_segment_length (ctx_limits old)))"
proof -
  let ?st = "run ext ops empty_store"
  let ?key = "(pcs_name config, getType fac)"
  let ?f = "apply_manager_settings m (pcs_config config)"
  have wf: "wf_store ?st" by (rule wf_reachable)
  have "\<exists>base. objects st' c = Some (?f base) \<and>
          ctx_max_solution_segment_length (ctx_limits base) =
            (case objects ?st c of
               None \<Rightarrow> ctx_max_solution_segment_length (constructed_limits ext)
             | Some old \<Rightarrow> ctx_max_solution_segment_length (ctx_limits old))"
  proof (cases "find (\<lambda>x. use_count ?st x = 1) (cached_list ?st ?key)")
    case (Some d)
    note hs = hit_store [OF Some acq]
    from find_split [OF Some] have "d \<in> set (cached_list ?st ?key)" by auto
    moreover have "contexts ?st ?key = Some (cached_list ?st ?key)"
      by (rule find_cached_Some [OF Some])
    ultimately have "d < next_address ?st" using wf_cached_below [OF wf] by blast
    from wf_object_below [OF wf this] obtain old where old: "objects ?st d = Some old" by blast
    have "objects st' c = map_option ?f (objects ?st d)"
      unfolding hs by (simp add: update_object_def split: option.splits)
    with old hs(1) have "objects st' c = Some (?f old) \<and>
          ctx_max_solution_segment_length (ctx_limits old) =
            (case objects ?st c of
               None \<Rightarrow> ctx_max_solution_segment_length (constructed_limits ext)
             | Some old \<Rightarrow> ctx_max_solution_segment_length (ctx_limits old))" by simp
    then show ?thesis by (rule exI)
  next
    case None
    note ms = acquire_miss [OF None acq]
    have "objects ?st c = None" unfolding ms(1) by (rule wf_fresh_object [OF wf])
    moreover have "objects st' c = Some (?f
              \<lparr>ctx_name = pcs_name config,
               ctx_spec = \<lparr>spec_config = pcs_config config, spec_state_space = getType fac,
                           spec_constrained_state_space =
                             (if getType fac = CONSTRAINED_PARAMETERIZATION_TYPE
                              then Some (path_constraints req) else None)\<rparr>,
               ctx_limits = constructed_limits ext\<rparr>)"
      unfolding ms(5) ms(1) by simp
    ultimately have "objects st' c = Some (?f
              \<lparr>ctx_name = pcs_name config,
               ctx_spec = \<lparr>spec_config = pcs_config config, spec_state_space = getType fac,
                           spec_constrained_state_space =
                             (if getType fac = CONSTRAINED_PARAMETERIZATION_TYPE
                              then Some (path_constraints req) else None)\<rparr>,
               ctx_limits = constructed_limits ext\<rparr>) \<and>
          ctx_max_solution_segment_length (ctx_limits 
              \<lparr>ctx_name = pcs_name config,
               ctx_spec = \<lparr>spec_config = pcs_config config, spec_state_space = getType fac,
                           spec_constrained_state_space =
                             (if getType fac = CONSTRAINED_PARAMETERIZATION_TYPE
                              then Some (path_constraints req) else None)\<rparr>,
               ctx_limits = constructed_limits ext\<rparr>) =
            (case objects ?st c of
               None \<Rightarrow> ctx_max_solution_segment_length (constructed_limits ext)
             | Some old \<Rightarrow> ctx_max_solution_segment_length (ctx_limits old))" by simp
    then show ?thesis by (rule exI)
  qed
  then obtain base where b: "objects st' c = Some (?f base)"
    "ctx_max_solution_segment_length (ctx_limits base) =
            (case objects ?st c of
               None \<Rightarrow> ctx_max_solution_segment_length (constructed_limits ext)
             | Some old \<Rightarrow> ctx_max_solution_segment_length (ctx_limits old))" by blast
  show ?thesis
    unfolding b(1) using b(2) by (simp add: apply_manager_settings_fields)
qed

text \<open>
  Claim C8 as it stands says that the manager's maximum solution segment length is applied
  again on every acquisition. A context cached while the manager's value was one half and
  acquired again from a manager whose value is 0 still has one half.
\<close>

theorem segment_length_not_reapplied:
  "map_option (\<lambda>ctx. ctx_max_solution_segment_length (ctx_limits ctx))
     (objects (fst (snd (getPlanningContext_config plain_externals (manager_with 0 []) (arm_config [])
                           joint_factory plain_request (run plain_externals warm_up_half empty_store))))
        (fst (getPlanningContext_config plain_externals (manager_with 0 []) (arm_config [])
                joint_factory plain_request (run plain_externals warm_up_half empty_store))))
     = Some (1 / 2) \<and>
   max_solution_segment_length (manager_with 0 []) = 0"
  by (simp add: warm_up_half_def getPlanningContext_config_def empty_store_def joint_factory_def
        scoring_factory_def Let_def update_object_def release_def arm_config_def
        JOINT_PARAMETERIZATION_TYPE_def CONSTRAINED_PARAMETERIZATION_TYPE_def
        apply_manager_settings_def manager_with_def DBL_EPSILON_def)

text \<open>The cached context acquired from a manager whose maximum solution segment length is 1.\<close>

theorem acquisition_applies_settings_witness:
  "\<exists>ctx. objects (fst (snd (getPlanningContext_config plain_externals (manager_with 1 []) (arm_config [(''range'', ''0.05'')])
                           joint_factory plain_request (run plain_externals warm_up_half empty_store))))
        (fst (getPlanningContext_config plain_externals (manager_with 1 []) (arm_config [(''range'', ''0.05'')])
                joint_factory plain_request (run plain_externals warm_up_half empty_store))) = Some ctx \<and>
     ctx_max_planning_threads (ctx_limits ctx) = 4 \<and>
     ctx_max_goal_samples (ctx_limits ctx) = 10 \<and>
     ctx_minimum_waypoint_count (ctx_limits ctx) = 2 \<and>
     spec_config (ctx_spec ctx) ''range'' = Some ''0.05'' \<and>
     ctx_max_solution_segment_length (ctx_limits ctx) = 1"
proof -
  let ?r = "getPlanningContext_config plain_externals (manager_with 1 []) (arm_config [(''range'', ''0.05'')])
                joint_factory plain_request (run plain_externals warm_up_half empty_store)"
  have r: "?r = (fst ?r, fst (snd ?r), snd (snd ?r))" by simp
  from acquisition_applies_settings [OF r]
  show ?thesis by (auto simp: manager_with_def arm_config_def DBL_EPSILON_def)
qed

subsection \<open>The request entry point\<close>

lemma acquire_cached_afterwards:
  assumes ne: "getType fac \<noteq> CONSTRAINED_PARAMETERIZATION_TYPE"
    and acq: "getPlanningContext_config ext m config fac req st = (c, st', lg)"
  shows "c \<in> set (cached_list st' (pcs_name config, getType fac))"
proof (cases "find (\<lambda>x. use_count st x = 1) (cached_list st (pcs_name config, getType fac))")
  case (Some d)
  note hs = hit_store [OF Some acq]
  from find_split [OF Some] have "d \<in> set (cached_list st (pcs_name config, getType fac))" by auto
  moreover have "contexts st' = contexts st" unfolding hs(2) by simp
  ultimately show ?thesis using hs(1) by (simp add: cached_list_def)
next
  case None
  note ms = acquire_miss [OF None acq]
  show ?thesis using ms(1) ms(3) ne by (simp add: cached_list_def)
qed

lemma getPlanningContext_reaches_setup:
  assumes "group_name req \<noteq> []"
    and "resolve_config m req = (Some pc, lg0)"
    and "select_factory (state_space_factories m) pc req = Inr (Some fac, lg1)"
    and "getPlanningContext_config ext m pc fac req st = (c, st1, lg2)"
  shows "getPlanningContext ext m (Some scene) req st = setup_context ext c req st1 (lg0 @ lg1 @ lg2)"
  using assms by (simp add: getPlanningContext_def)

text \<open>
  What a call of the entry point that returns does to the store is nothing, an acquisition,
  or an acquisition followed by the release of the acquired context.
\<close>

lemma setup_context_store:
  "setup_context ext c req st lg = Inr (r, e, st', lg') \<Longrightarrow> st' = st \<or> st' = release c st"
  by (auto simp: setup_context_def split_beta split: if_splits configure_outcome.splits)

lemma getPlanningContext_store:
  assumes "getPlanningContext ext m scene req st = Inr (r, e, st', lg)"
  shows "st' = st \<or>
         (\<exists>pc fac. st' = run ext [Acquire m pc fac req] st \<or>
                   st' = run ext [Acquire m pc fac req,
                                  Release (fst (getPlanningContext_config ext m pc fac req st))] st)"
proof (cases "group_name req = [] \<or> scene = None \<or> fst (resolve_config m req) = None")
  case True
  with assms have "st' = st"
    by (auto simp: getPlanningContext_def split: option.splits prod.splits if_splits)
  then show ?thesis by simp
next
  case False
  then obtain sc pc lg0 where g: "group_name req \<noteq> []" and sc: "scene = Some sc"
    and rc: "resolve_config m req = (Some pc, lg0)"
    by (cases "resolve_config m req") auto
  from assms g sc rc obtain fac lg1 where
    sel: "select_factory (state_space_factories m) pc req = Inr (Some fac, lg1)"
    by (auto simp: getPlanningContext_def split: sum.splits option.splits prod.splits)
  obtain c st1 lg2 where acq: "getPlanningContext_config ext m pc fac req st = (c, st1, lg2)"
    by (cases "getPlanningContext_config ext m pc fac req st") auto
  from assms getPlanningContext_reaches_setup [OF g rc sel acq, of sc] sc
  have "setup_context ext c req st1 (lg0 @ lg1 @ lg2) = Inr (r, e, st', lg)" by simp
  from setup_context_store [OF this] acq
  have "st' = run ext [Acquire m pc fac req] st \<or>
        st' = run ext [Acquire m pc fac req,
                       Release (fst (getPlanningContext_config ext m pc fac req st))] st"
    by auto
  then show ?thesis by blast
qed

text \<open>
  Claim C10. Let the request name a group and resolve to a configuration, let a factory be
  selected and a context be acquired, and let \<open>setPathConstraints\<close> or, after it,
  \<open>setGoalConstraints\<close> fail. Then the call returns the null pointer and the error code as
  the failing setter left it, and the cache is what it was right after the acquisition: for a
  factory that is not of the constrained type the context is still in the entry of its key,
  and when it was newly built (every cached context of the key had another holder) the cache
  is the one before the call with the new context appended to that entry.
\<close>

theorem constraint_failure_keeps_cached_context:
  assumes grp: "group_name req \<noteq> []"
    and cfg: "resolve_config m req = (Some pc, lg0)"
    and sel: "select_factory (state_space_factories m) pc req = Inr (Some fac, lg1)"
    and acq: "getPlanningContext_config ext m pc fac req st = (c, st1, lg2)"
    and fail: "\<not> fst (setPathConstraints ext c req FAILURE) \<or>
               \<not> fst (setGoalConstraints ext c req (snd (setPathConstraints ext c req FAILURE)))"
  shows "\<exists>st'. getPlanningContext ext m (Some scene) req st =
             Inr (None,
                  (if \<not> fst (setPathConstraints ext c req FAILURE)
                   then snd (setPathConstraints ext c req FAILURE)
                   else snd (setGoalConstraints ext c req (snd (setPathConstraints ext c req FAILURE)))),
                  st', lg0 @ lg1 @ lg2) \<and>
           contexts st' = contexts st1 \<and>
           (getType fac \<noteq> CONSTRAINED_PARAMETERIZATION_TYPE \<longrightarrow>
              c \<in> set (cached_list st' (pcs_name pc, getType fac))) \<and>
           (getType fac \<noteq> CONSTRAINED_PARAMETERIZATION_TYPE \<and>
            (\<forall>x \<in> set (cached_list st (pcs_name pc, getType fac)). use_count st x \<noteq> 1) \<longrightarrow>
              c = next_address st \<and>
              contexts st' = (contexts st)((pcs_name pc, getType fac) \<mapsto>
                                cached_list st (pcs_name pc, getType fac) @ [c]))"
proof -
  let ?key = "(pcs_name pc, getType fac)"
  let ?e = "(if \<not> fst (setPathConstraints ext c req FAILURE)
             then snd (setPathConstraints ext c req FAILURE)
             else snd (setGoalConstraints ext c req (snd (setPathConstraints ext c req FAILURE))))"
  have "setup_context ext c req st1 (lg0 @ lg1 @ lg2) = Inr (None, ?e, release c st1, lg0 @ lg1 @ lg2)"
    using fail by (auto simp: setup_context_def split: prod.splits)
  then have res: "getPlanningContext ext m (Some scene) req st
                  = Inr (None, ?e, release c st1, lg0 @ lg1 @ lg2)"
    using getPlanningContext_reaches_setup [OF grp cfg sel acq] by simp
  have cx: "contexts (release c st1) = contexts st1" by simp
  have cached: "c \<in> set (cached_list (release c st1) ?key)"
    if "getType fac \<noteq> CONSTRAINED_PARAMETERIZATION_TYPE"
    using acquire_cached_afterwards [OF that acq] by (simp add: cached_list_def)
  have new: "c = next_address st \<and> contexts (release c st1) = (contexts st)(?key \<mapsto> cached_list st ?key @ [c])"
    if ne: "getType fac \<noteq> CONSTRAINED_PARAMETERIZATION_TYPE"
      and held: "\<forall>x \<in> set (cached_list st ?key). use_count st x \<noteq> 1"
  proof -
    from held have "find (\<lambda>x. use_count st x = 1) (cached_list st ?key) = None"
      by (simp add: find_None_iff)
    note ms = acquire_miss [OF this acq]
    show ?thesis using ms(1) ms(3) ne by simp
  qed
  have "getPlanningContext ext m (Some scene) req st = Inr (None, ?e, release c st1, lg0 @ lg1 @ lg2) \<and>
           contexts (release c st1) = contexts st1 \<and>
           (getType fac \<noteq> CONSTRAINED_PARAMETERIZATION_TYPE \<longrightarrow>
              c \<in> set (cached_list (release c st1) ?key)) \<and>
           (getType fac \<noteq> CONSTRAINED_PARAMETERIZATION_TYPE \<and>
            (\<forall>x \<in> set (cached_list st ?key). use_count st x \<noteq> 1) \<longrightarrow>
              c = next_address st \<and>
              contexts (release c st1) = (contexts st)(?key \<mapsto> cached_list st ?key @ [c]))"
    using res cx cached new by blast
  then show ?thesis by (rule exI)
qed

text \<open>
  A request whose goal constraints are rejected, on an empty cache: the call returns the null
  pointer and the setter's code, and the new context stays in the cache.
\<close>

theorem constraint_failure_keeps_cached_context_witness:
  "\<exists>st'. getPlanningContext rejecting_externals (arm_manager []) (Some 0) plain_request empty_store
           = Inr (None, OtherErrorCode (- 14), st',
                  [(DEBUG, UsingParameterization ''PoseModel''), (DEBUG, CreatingNewContext)]) \<and>
         contexts st' (''arm[RRTConnect]'', ''PoseModel'') = Some [0]"
proof -
  let ?fac = "scoring_factory ''PoseModel'' 150"
  let ?r = "getPlanningContext_config rejecting_externals (arm_manager []) (arm_config []) ?fac
              plain_request empty_store"
  have grp: "group_name plain_request \<noteq> []" by (simp add: plain_request_def)
  have cfg: "resolve_config (arm_manager []) plain_request = (Some (arm_config []), [])"
    by (simp add: resolve_config_def arm_manager_def manager_with_def plain_request_def)
  have sel: "select_factory (state_space_factories (arm_manager [])) (arm_config []) plain_request
             = Inr (Some ?fac, [(DEBUG, UsingParameterization ''PoseModel'')])"
    by (simp add: select_factory_def select_factory_unconstrained_def arm_manager_def
          manager_with_def arm_config_def getStateSpaceFactory_problem_def default_factories_def
          scoring_factory_def)
  have acq: "?r = (fst ?r, fst (snd ?r), snd (snd ?r))" by simp
  have lg: "snd (snd ?r) = [(DEBUG, CreatingNewContext)]"
    by (simp add: getPlanningContext_config_def empty_store_def scoring_factory_def
          CONSTRAINED_PARAMETERIZATION_TYPE_def Let_def)
  have fail: "\<not> fst (setPathConstraints rejecting_externals (fst ?r) plain_request FAILURE) \<or>
              \<not> fst (setGoalConstraints rejecting_externals (fst ?r) plain_request
                        (snd (setPathConstraints rejecting_externals (fst ?r) plain_request FAILURE)))"
    by (simp add: rejecting_externals_def plain_externals_def)
  have ne: "getType ?fac \<noteq> CONSTRAINED_PARAMETERIZATION_TYPE"
    by (simp add: scoring_factory_def CONSTRAINED_PARAMETERIZATION_TYPE_def)
  have key: "(pcs_name (arm_config []), getType ?fac) = (''arm[RRTConnect]'', ''PoseModel'')"
    by (simp add: arm_config_def scoring_factory_def)
  have e: "cached_list empty_store (''arm[RRTConnect]'', ''PoseModel'') = []"
    "next_address empty_store = 0"
    by (simp_all add: cached_list_def empty_store_def)
  from constraint_failure_keeps_cached_context [OF grp cfg sel acq fail, of 0]
  obtain st' where
    res: "getPlanningContext rejecting_externals (arm_manager []) (Some 0) plain_request empty_store =
             Inr (None,
                  (if \<not> fst (setPathConstraints rejecting_externals (fst ?r) plain_request FAILURE)
                   then snd (setPathConstraints rejecting_externals (fst ?r) plain_request FAILURE)
                   else snd (setGoalConstraints rejecting_externals (fst ?r) plain_request
                          (snd (setPathConstraints rejecting_externals (fst ?r) plain_request FAILURE)))),
                  st', [] @ [(DEBUG, UsingParameterization ''PoseModel'')] @ snd (snd ?r))"
    and new: "getType ?fac \<noteq> CONSTRAINED_PARAMETERIZATION_TYPE \<and>
            (\<forall>x \<in> set (cached_list empty_store (pcs_name (arm_config []), getType ?fac)).
                use_count empty_store x \<noteq> 1) \<longrightarrow>
              fst ?r = next_address empty_store \<and>
              contexts st' = (contexts empty_store)((pcs_name (arm_config []), getType ?fac) \<mapsto>
                                cached_list empty_store (pcs_name (arm_config []), getType ?fac) @ [fst ?r])"
    by blast
  have code: "(if \<not> fst (setPathConstraints rejecting_externals (fst ?r) plain_request FAILURE)
                   then snd (setPathConstraints rejecting_externals (fst ?r) plain_request FAILURE)
                   else snd (setGoalConstraints rejecting_externals (fst ?r) plain_request
                          (snd (setPathConstraints rejecting_externals (fst ?r) plain_request FAILURE))))
              = OtherErrorCode (- 14)"
    by (simp add: rejecting_externals_def plain_externals_def)
  from new ne have "fst ?r = 0 \<and> contexts st' = (contexts empty_store)((''arm[RRTConnect]'', ''PoseModel'') \<mapsto> [fst ?r])"
    unfolding key by (simp add: e)
  then have "contexts st' (''arm[RRTConnect]'', ''PoseModel'') = Some [0]" by simp
  moreover from res have "getPlanningContext rejecting_externals (arm_manager []) (Some 0) plain_request empty_store
           = Inr (None, OtherErrorCode (- 14), st',
                  [(DEBUG, UsingParameterization ''PoseModel''), (DEBUG, CreatingNewContext)])"
    unfolding code lg by simp
  ultimately show ?thesis by blast
qed

subsection \<open>What leaves the entry point\<close>








end
